theory Spec2Isabelle
  imports Complex_Main "HOL-Library.Sublist"
begin

text \<open>
  A model of the electrical load dashboard: the validator \<^verbatim>\<open>validateInputs\<close>, the
  calculator \<^verbatim>\<open>calculatePower\<close>, the event handlers \<^verbatim>\<open>updateCalculations\<close> and
  \<^verbatim>\<open>saveCalculation\<close>, and the history functions \<^verbatim>\<open>getHistory\<close>, \<^verbatim>\<open>clearHistory\<close> and
  \<^verbatim>\<open>deleteHistoryItem\<close> of the main application, and \<^verbatim>\<open>calculateReactivePower\<close> of the
  utility module. The definitions follow the TypeScript text of the application; the
  compiled script has the same statements. What the functions write to the page
  (\<^verbatim>\<open>displayErrors\<close>, \<^verbatim>\<open>displayResults\<close>, \<^verbatim>\<open>displayHistory\<close>) is not modelled beyond the
  value that is shown.
\<close>

section \<open>JavaScript numbers\<close>

text \<open>
  Every numeric value of the dashboard is a JavaScript \<^verbatim>\<open>number\<close>: an IEEE 754 binary64
  value. A number is modelled as not-a-number, one of the two infinities, or the real
  value of a finite double. The sign of a zero is not tracked: the program never divides
  by a variable and uses no operation that tells \<^verbatim>\<open>-0\<close> from \<^verbatim>\<open>+0\<close> (comparisons,
  truthiness, \<^verbatim>\<open>Math.max(0, _)\<close> and the JSON text treat both alike).
\<close>

datatype number = NaN | PosInf | NegInf | Fin real

text \<open>Round to nearest integer, a tie going to the even neighbour.\<close>

definition round_even :: "real \<Rightarrow> int" where
  "round_even y =
     (let f = \<lfloor>y\<rfloor>; d = y - of_int f
      in if d < 1 / 2 then f else if 1 / 2 < d then f + 1 else if even f then f else f + 1)"

text \<open>
  The exponent of the unit in the last place of \<open>x\<close>: 53 significant bits in the binade
  of \<open>x\<close>, and the fixed spacing \<open>2 powi -1074\<close> below the smallest normal number.
\<close>

definition ulp_exp :: "real \<Rightarrow> int" where
  "ulp_exp x = max \<lfloor>log 2 \<bar>x\<bar>\<rfloor> (- 1022) - 52"

text \<open>
  \<open>fl x\<close> is the double that an arithmetic operation with exact result \<open>x\<close> returns:
  round to nearest, ties to even, with unbounded exponent, and an infinity when the
  rounded magnitude reaches \<open>2 ^ 1024\<close>.
\<close>

definition fl :: "real \<Rightarrow> number" where
  "fl x =
     (if x = 0 then Fin 0
      else let u = 2 powi ulp_exp x; r = of_int (round_even (x / u)) * u
           in if 2 ^ 1024 \<le> r then PosInf else if r \<le> - (2 ^ 1024) then NegInf else Fin r)"

text \<open>A decimal literal of the source text denotes the double nearest to it.\<close>

definition lit :: "real \<Rightarrow> number" where
  "lit x = fl x"

fun isNaN :: "number \<Rightarrow> bool" where
  "isNaN NaN = True"
| "isNaN _ = False"

text \<open>\<^verbatim>\<open>a < b\<close>: false as soon as an operand is not-a-number.\<close>

fun num_lt :: "number \<Rightarrow> number \<Rightarrow> bool" where
  "num_lt NaN _ = False"
| "num_lt _ NaN = False"
| "num_lt _ NegInf = False"
| "num_lt NegInf _ = True"
| "num_lt PosInf _ = False"
| "num_lt (Fin a) PosInf = True"
| "num_lt (Fin a) (Fin b) = (a < b)"

text \<open>\<^verbatim>\<open>a > b\<close> is \<^verbatim>\<open>b < a\<close>; \<^verbatim>\<open>a <= b\<close> is true when neither operand is
  not-a-number and \<^verbatim>\<open>b < a\<close> is false.\<close>

definition num_gt :: "number \<Rightarrow> number \<Rightarrow> bool" where
  "num_gt a b = num_lt b a"

definition num_le :: "number \<Rightarrow> number \<Rightarrow> bool" where
  "num_le a b = (if isNaN a \<or> isNaN b then False else \<not> num_lt b a)"

text \<open>\<^verbatim>\<open>a === b\<close> on numbers: not-a-number equals nothing, itself included.\<close>

definition strict_eq :: "number \<Rightarrow> number \<Rightarrow> bool" where
  "strict_eq a b = (if isNaN a \<or> isNaN b then False else a = b)"

text \<open>Truthiness of a number: not-a-number and zero are falsy.\<close>

definition truthy :: "number \<Rightarrow> bool" where
  "truthy a = (if isNaN a then False else a \<noteq> Fin 0)"

text \<open>\<^verbatim>\<open>a || d\<close> on numbers.\<close>

definition or_else :: "number \<Rightarrow> number \<Rightarrow> number" where
  "or_else a d = (if truthy a then a else d)"

text \<open>The sign of an infinite product or quotient.\<close>

definition signed_inf :: "bool \<Rightarrow> number" where
  "signed_inf positive = (if positive then PosInf else NegInf)"

fun fmul :: "number \<Rightarrow> number \<Rightarrow> number" where
  "fmul NaN _ = NaN"
| "fmul _ NaN = NaN"
| "fmul (Fin a) (Fin b) = fl (a * b)"
| "fmul (Fin a) PosInf = (if a = 0 then NaN else signed_inf (0 < a))"
| "fmul (Fin a) NegInf = (if a = 0 then NaN else signed_inf (a < 0))"
| "fmul PosInf (Fin b) = (if b = 0 then NaN else signed_inf (0 < b))"
| "fmul NegInf (Fin b) = (if b = 0 then NaN else signed_inf (b < 0))"
| "fmul PosInf PosInf = PosInf"
| "fmul PosInf NegInf = NegInf"
| "fmul NegInf PosInf = NegInf"
| "fmul NegInf NegInf = PosInf"

text \<open>
  Division. The program divides only by the literals 1000 and 100; for a zero divisor
  the result is the one for \<^verbatim>\<open>+0\<close>.
\<close>

fun fdiv :: "number \<Rightarrow> number \<Rightarrow> number" where
  "fdiv NaN _ = NaN"
| "fdiv _ NaN = NaN"
| "fdiv (Fin a) (Fin b) =
     (if b = 0 then (if a = 0 then NaN else signed_inf (0 < a)) else fl (a / b))"
| "fdiv (Fin a) PosInf = Fin 0"
| "fdiv (Fin a) NegInf = Fin 0"
| "fdiv PosInf (Fin b) = signed_inf (0 \<le> b)"
| "fdiv NegInf (Fin b) = signed_inf (b < 0)"
| "fdiv PosInf PosInf = NaN"
| "fdiv PosInf NegInf = NaN"
| "fdiv NegInf PosInf = NaN"
| "fdiv NegInf NegInf = NaN"

fun fsub :: "number \<Rightarrow> number \<Rightarrow> number" where
  "fsub NaN _ = NaN"
| "fsub _ NaN = NaN"
| "fsub (Fin a) (Fin b) = fl (a - b)"
| "fsub (Fin a) PosInf = NegInf"
| "fsub (Fin a) NegInf = PosInf"
| "fsub PosInf PosInf = NaN"
| "fsub PosInf _ = PosInf"
| "fsub NegInf NegInf = NaN"
| "fsub NegInf _ = NegInf"

text \<open>\<^verbatim>\<open>Math.sqrt\<close>, \<^verbatim>\<open>Math.max\<close> of two arguments and \<^verbatim>\<open>Math.pow(x, 2)\<close>; the
  square root and the square are taken to be correctly rounded.\<close>

fun Math_sqrt :: "number \<Rightarrow> number" where
  "Math_sqrt NaN = NaN"
| "Math_sqrt PosInf = PosInf"
| "Math_sqrt NegInf = NaN"
| "Math_sqrt (Fin a) = (if a < 0 then NaN else fl (sqrt a))"

definition Math_max :: "number \<Rightarrow> number \<Rightarrow> number" where
  "Math_max a b = (if isNaN a \<or> isNaN b then NaN else if num_lt a b then b else a)"

fun Math_pow2 :: "number \<Rightarrow> number" where
  "Math_pow2 NaN = NaN"
| "Math_pow2 PosInf = PosInf"
| "Math_pow2 NegInf = PosInf"
| "Math_pow2 (Fin a) = fl (a * a)"

section \<open>Validation\<close>

record ValidationRule =
  rmin :: number
  rmax :: number
  required :: bool
  description :: string

text \<open>
  The five entries of \<^verbatim>\<open>VALIDATION_RULES\<close>. Their bounds are integers or \<open>0.5\<close>, which a
  double holds exactly.
\<close>

definition VALIDATION_RULES_voltage :: ValidationRule where
  "VALIDATION_RULES_voltage =
     \<lparr>rmin = Fin 0, rmax = Fin 1000000, required = True, description = ''Voltage''\<rparr>"

definition VALIDATION_RULES_current :: ValidationRule where
  "VALIDATION_RULES_current =
     \<lparr>rmin = Fin 0, rmax = Fin 100000, required = True, description = ''Current''\<rparr>"

definition VALIDATION_RULES_powerFactor :: ValidationRule where
  "VALIDATION_RULES_powerFactor =
     \<lparr>rmin = Fin (1 / 2), rmax = Fin 1, required = False, description = ''Power Factor''\<rparr>"

definition VALIDATION_RULES_efficiency :: ValidationRule where
  "VALIDATION_RULES_efficiency =
     \<lparr>rmin = Fin 0, rmax = Fin 100, required = False, description = ''Efficiency''\<rparr>"

definition VALIDATION_RULES_rate :: ValidationRule where
  "VALIDATION_RULES_rate =
     \<lparr>rmin = Fin 0, rmax = Fin 10, required = False, description = ''Electricity Rate''\<rparr>"

record ValidationResult =
  isValid :: bool
  errors :: "string list"

text \<open>\<^verbatim>\<open>errors.push(s)\<close>.\<close>

definition push :: "string list \<Rightarrow> string \<Rightarrow> string list" where
  "push es s = es @ [s]"

text \<open>
  \<^verbatim>\<open>validateInputs(voltage, current, powerFactor, efficiency, rate)\<close>. The arguments are
  numbers, so the tests \<^verbatim>\<open>=== null\<close> of the source are false and are left out. The list
  \<open>errors\<close> is threaded through the four blocks in the order of the source.
\<close>

definition validateInputs ::
  "number \<Rightarrow> number \<Rightarrow> number \<Rightarrow> number \<Rightarrow> number \<Rightarrow> ValidationResult" where
  "validateInputs voltage current powerFactor efficiency rate =
     (let es0 = [];
          es1 =
            (if isNaN voltage
             then push es0 (description VALIDATION_RULES_voltage @ '' is required'')
             else if num_le voltage (rmin VALIDATION_RULES_voltage)
             then push es0 (description VALIDATION_RULES_voltage @ '' must be greater than 0'')
             else if num_gt voltage (rmax VALIDATION_RULES_voltage)
             then push es0 (description VALIDATION_RULES_voltage @ '' exceeds maximum limit'')
             else es0);
          es2 =
            (if isNaN current
             then push es1 (description VALIDATION_RULES_current @ '' is required'')
             else if num_le current (rmin VALIDATION_RULES_current)
             then push es1 (description VALIDATION_RULES_current @ '' must be greater than 0'')
             else if num_gt current (rmax VALIDATION_RULES_current)
             then push es1 (description VALIDATION_RULES_current @ '' exceeds maximum limit'')
             else es1);
          es3 =
            (if \<not> isNaN powerFactor
             then (if num_lt powerFactor (rmin VALIDATION_RULES_powerFactor)
                      \<or> num_gt powerFactor (rmax VALIDATION_RULES_powerFactor)
                   then push es2
                     (description VALIDATION_RULES_powerFactor @ '' must be between 0.5 and 1.0'')
                   else es2)
             else es2);
          es4 =
            (if \<not> isNaN efficiency
             then (if num_lt efficiency (rmin VALIDATION_RULES_efficiency)
                      \<or> num_gt efficiency (rmax VALIDATION_RULES_efficiency)
                   then push es3
                     (description VALIDATION_RULES_efficiency @ '' must be between 0 and 100'')
                   else es3)
             else es3)
      in \<lparr>isValid = (length es4 = 0), errors = es4\<rparr>)"

section \<open>Power and cost\<close>

text \<open>
  The record is used with two kinds of field: the numbers that \<^verbatim>\<open>calculatePower\<close>
  computes, and the values that come back from the stored JSON text (section History).
\<close>

record 'n CalculationResult =
  kw :: 'n
  kva :: 'n
  kvar :: 'n
  pf :: 'n
  adjustedPower :: 'n
  phase :: 'n
  costPerHour :: 'n
  costPerDay :: 'n
  costPerMonth :: 'n
  costPerYear :: 'n

text \<open>\<^verbatim>\<open>calculatePower(voltage, current, phase, powerFactor, efficiency, rate)\<close> of the
  application (the same text in the TypeScript source and in the compiled script).\<close>

definition calculatePower ::
  "number \<Rightarrow> number \<Rightarrow> number \<Rightarrow> number \<Rightarrow> number \<Rightarrow> number \<Rightarrow> number CalculationResult" where
  "calculatePower voltage current ph powerFactor efficiency rate =
     (let (kw', kva') =
            (if strict_eq ph (Fin 1)
             then (let kva0 = fdiv (fmul voltage current) (Fin 1000)
                   in (fmul kva0 powerFactor, kva0))
             else (let sqrt3 = Math_sqrt (Fin 3);
                       kva0 = fdiv (fmul (fmul sqrt3 voltage) current) (Fin 1000)
                   in (fmul kva0 powerFactor, kva0)));
          adjustedPower' = fmul kw' (fdiv efficiency (Fin 100));
          kvar' = Math_sqrt (Math_max (Fin 0) (fsub (Math_pow2 kva') (Math_pow2 kw')));
          costPerHour' = fmul adjustedPower' rate;
          costPerDay' = fmul costPerHour' (Fin 24);
          costPerMonth' = fmul costPerDay' (Fin 30);
          costPerYear' = fmul costPerDay' (Fin 365)
      in \<lparr>kw = kw', kva = kva', kvar = kvar', pf = powerFactor,
          adjustedPower = adjustedPower', phase = ph,
          costPerHour = costPerHour', costPerDay = costPerDay',
          costPerMonth = costPerMonth', costPerYear = costPerYear'\<rparr>)"

text \<open>\<^verbatim>\<open>calculateReactivePower(apparentPower, realPower)\<close> of the utility module.\<close>

definition calculateReactivePower :: "number \<Rightarrow> number \<Rightarrow> number" where
  "calculateReactivePower apparentPower realPower =
     Math_sqrt (Math_max (Fin 0) (fsub (Math_pow2 apparentPower) (Math_pow2 realPower)))"

section \<open>The input fields\<close>

text \<open>
  The application reads six form fields with \<^verbatim>\<open>parseFloat\<close> and \<^verbatim>\<open>parseInt\<close>. The model
  starts from the six parsed numbers (not-a-number for an empty or unreadable field).
\<close>

record FieldValues =
  voltageInput :: number
  currentInput :: number
  phaseSelect :: number
  powerFactorInput :: number
  efficiencyInput :: number
  electricityRateInput :: number

text \<open>What \<^verbatim>\<open>updateCalculations\<close> puts on the results panel: the error list
  (\<^verbatim>\<open>displayErrors\<close>) or the result record (\<^verbatim>\<open>displayResults\<close>).\<close>

datatype display = Errors "string list" | Results "number CalculationResult"

definition updateCalculations :: "FieldValues \<Rightarrow> display" where
  "updateCalculations inp =
     (let voltage = voltageInput inp;
          current = currentInput inp;
          ph = phaseSelect inp;
          powerFactor = or_else (powerFactorInput inp) (lit 0.9);
          efficiency = or_else (efficiencyInput inp) (Fin 100);
          rate = or_else (electricityRateInput inp) (lit 0.12);
          validation = validateInputs voltage current powerFactor efficiency rate
      in if \<not> isValid validation then Errors (errors validation)
         else Results (calculatePower voltage current ph powerFactor efficiency rate))"

section \<open>History\<close>

text \<open>
  The history is kept in \<^verbatim>\<open>localStorage\<close> as the JSON text of an array.
  \<^verbatim>\<open>JSON.stringify\<close> writes a finite number as a decimal that reads back as the same
  double, and writes not-a-number and the infinities as \<^verbatim>\<open>null\<close>. A number field of a
  stored entry is therefore a finite value or \<^verbatim>\<open>null\<close> (\<open>None\<close>).
\<close>

type_synonym json_number = "real option"

definition toJSON :: "number \<Rightarrow> json_number" where
  "toJSON x = (case x of Fin a \<Rightarrow> Some a | _ \<Rightarrow> None)"

text \<open>The fields \<^verbatim>\<open>id\<close> and \<^verbatim>\<open>phase\<close> of a history item are named \<open>item_id\<close> and
  \<open>item_phase\<close> here: \<open>id\<close> is the identity function of HOL and \<open>phase\<close> a field of the
  result record.\<close>

record 'n HistoryItem =
  item_id :: string
  timestamp :: nat
  voltage :: 'n
  current :: 'n
  item_phase :: 'n
  powerFactor :: 'n
  efficiency :: 'n
  rate :: 'n
  result :: "'n CalculationResult"

text \<open>The JSON image of a result record and of a history item.\<close>

definition result_toJSON :: "number CalculationResult \<Rightarrow> json_number CalculationResult" where
  "result_toJSON r =
     \<lparr>kw = toJSON (kw r), kva = toJSON (kva r), kvar = toJSON (kvar r), pf = toJSON (pf r),
      adjustedPower = toJSON (adjustedPower r), phase = toJSON (phase r),
      costPerHour = toJSON (costPerHour r), costPerDay = toJSON (costPerDay r),
      costPerMonth = toJSON (costPerMonth r), costPerYear = toJSON (costPerYear r)\<rparr>"

definition item_toJSON :: "number HistoryItem \<Rightarrow> json_number HistoryItem" where
  "item_toJSON h =
     \<lparr>item_id = item_id h, timestamp = timestamp h, voltage = toJSON (voltage h),
      current = toJSON (current h), item_phase = toJSON (item_phase h),
      powerFactor = toJSON (powerFactor h), efficiency = toJSON (efficiency h),
      rate = toJSON (rate h), result = result_toJSON (result h)\<rparr>"

text \<open>
  The two keys the application uses. The value under \<^verbatim>\<open>calculationHistory\<close> is modelled
  by the array that its JSON text denotes; \<open>None\<close> is an absent key. Texts that the
  application did not write are outside the model.
\<close>

record storage =
  theme :: "string option"
  calculationHistory :: "json_number HistoryItem list option"

definition getHistory :: "storage \<Rightarrow> json_number HistoryItem list" where
  "getHistory st = (case calculationHistory st of None \<Rightarrow> [] | Some historyData \<Rightarrow> historyData)"

text \<open>\<^verbatim>\<open>Date.now().toString()\<close>: the decimal digits of the clock reading.\<close>

fun toString :: "nat \<Rightarrow> string" where
  "toString n =
     (if n < 10 then [char_of (48 + n)] else toString (n div 10) @ [char_of (48 + n mod 10)])"

declare toString.simps [simp del]

text \<open>
  \<^verbatim>\<open>saveCalculation\<close>. The clock is read twice, for \<open>id\<close> and for \<open>timestamp\<close>; the two
  readings are the arguments \<open>now1\<close> and \<open>now2\<close>. With invalid input the function alerts
  and returns, the storage untouched. The entries read from the storage are JSON values
  already and are written back as they are; the new item is written as its JSON image,
  so it is converted where it is put in front. The call of \<^verbatim>\<open>displayHistory\<close> that ends
  the function comes after the write and only reads the storage.
\<close>

definition saveCalculation :: "FieldValues \<Rightarrow> nat \<Rightarrow> nat \<Rightarrow> storage \<Rightarrow> storage" where
  "saveCalculation inp now1 now2 st =
     (let voltage' = voltageInput inp;
          current' = currentInput inp;
          ph = phaseSelect inp;
          powerFactor' = or_else (powerFactorInput inp) (lit 0.9);
          efficiency' = or_else (efficiencyInput inp) (Fin 100);
          rate' = or_else (electricityRateInput inp) (lit 0.12);
          validation = validateInputs voltage' current' powerFactor' efficiency' rate'
      in if \<not> isValid validation then st
         else
           (let result' = calculatePower voltage' current' ph powerFactor' efficiency' rate';
                historyItem =
                  \<lparr>item_id = toString now1, timestamp = now2, voltage = voltage',
                   current = current', item_phase = ph, powerFactor = powerFactor',
                   efficiency = efficiency', rate = rate', result = result'\<rparr>;
                history = getHistory st;
                history1 = item_toJSON historyItem # history;
                history2 = (if length history1 > 10 then take 10 history1 else history1)
            in st\<lparr>calculationHistory := Some history2\<rparr>))"

text \<open>\<^verbatim>\<open>clearHistory\<close>; \<open>confirmed\<close> is the answer of the confirmation dialog.\<close>

definition clearHistory :: "bool \<Rightarrow> storage \<Rightarrow> storage" where
  "clearHistory confirmed st = (if confirmed then st\<lparr>calculationHistory := None\<rparr> else st)"

definition deleteHistoryItem :: "string \<Rightarrow> storage \<Rightarrow> storage" where
  "deleteHistoryItem i st =
     (let history = getHistory st;
          filtered = filter (\<lambda>item. item_id item \<noteq> i) history
      in st\<lparr>calculationHistory := Some filtered\<rparr>)"

text \<open>The states that the three history operations reach from a storage without history.\<close>

inductive reachable :: "storage \<Rightarrow> bool" where
  initial: "calculationHistory st = None \<Longrightarrow> reachable st"
| save: "reachable st \<Longrightarrow> reachable (saveCalculation inp now1 now2 st)"
| delete: "reachable st \<Longrightarrow> reachable (deleteHistoryItem i st)"
| clear: "reachable st \<Longrightarrow> reachable (clearHistory confirmed st)"

section \<open>The rules of the specification\<close>

text \<open>
  The validation rules as the specification words them, one list per field: a field
  contributes at most one message, and the text of the message is the one that the
  source chooses for the rule that fails first.
\<close>

definition voltage_message :: "number \<Rightarrow> string" where
  "voltage_message v =
     (if isNaN v then ''Voltage is required''
      else if num_le v (Fin 0) then ''Voltage must be greater than 0''
      else ''Voltage exceeds maximum limit'')"

definition current_message :: "number \<Rightarrow> string" where
  "current_message c =
     (if isNaN c then ''Current is required''
      else if num_le c (Fin 0) then ''Current must be greater than 0''
      else ''Current exceeds maximum limit'')"

definition voltage_errors :: "number \<Rightarrow> string list" where
  "voltage_errors v =
     (if isNaN v \<or> num_le v (Fin 0) \<or> num_gt v (Fin 1000000) then [voltage_message v] else [])"

definition current_errors :: "number \<Rightarrow> string list" where
  "current_errors c =
     (if isNaN c \<or> num_le c (Fin 0) \<or> num_gt c (Fin 100000) then [current_message c] else [])"

text \<open>\<open>outside x lo hi\<close>: \<open>x\<close> lies outside the closed interval from \<open>lo\<close> to \<open>hi\<close>.\<close>

definition outside :: "number \<Rightarrow> number \<Rightarrow> number \<Rightarrow> bool" where
  "outside x lo hi = (num_lt x lo \<or> num_gt x hi)"

definition powerFactor_errors :: "number \<Rightarrow> string list" where
  "powerFactor_errors p =
     (if isNaN p then []
      else if outside p (Fin (1 / 2)) (Fin 1) then [''Power Factor must be between 0.5 and 1.0'']
      else [])"

definition efficiency_errors :: "number \<Rightarrow> string list" where
  "efficiency_errors e =
     (if isNaN e then []
      else if outside e (Fin 0) (Fin 100) then [''Efficiency must be between 0 and 100'']
      else [])"

text \<open>\<open>finite_nonneg x\<close>: \<open>x\<close> is a finite number and at least 0. \<open>in_range k x\<close>: moreover
  \<open>x\<close> is at most \<open>2 ^ k\<close>.\<close>

definition finite_nonneg :: "number \<Rightarrow> bool" where
  "finite_nonneg x = (case x of Fin a \<Rightarrow> 0 \<le> a | _ \<Rightarrow> False)"

definition in_range :: "nat \<Rightarrow> number \<Rightarrow> bool" where
  "in_range k x = (case x of Fin a \<Rightarrow> 0 \<le> a \<and> a \<le> 2 ^ k | _ \<Rightarrow> False)"

section \<open>Notions used to state the history properties\<close>

text \<open>\<open>accepted inp\<close>: the field values pass the validation that \<open>saveCalculation\<close> and
  \<open>updateCalculations\<close> run, after the defaults have been put in.\<close>

definition accepted :: "FieldValues \<Rightarrow> bool" where
  "accepted inp =
     isValid (validateInputs (voltageInput inp) (currentInput inp)
       (or_else (powerFactorInput inp) (lit 0.9))
       (or_else (efficiencyInput inp) (Fin 100))
       (or_else (electricityRateInput inp) (lit 0.12)))"

text \<open>The entry that a successful \<open>saveCalculation\<close> stores for the given field values
  and clock readings.\<close>

definition saved_item :: "FieldValues \<Rightarrow> nat \<Rightarrow> nat \<Rightarrow> json_number HistoryItem" where
  "saved_item inp now1 now2 =
     item_toJSON
       \<lparr>item_id = toString now1, timestamp = now2, voltage = voltageInput inp,
        current = currentInput inp, item_phase = phaseSelect inp,
        powerFactor = or_else (powerFactorInput inp) (lit 0.9),
        efficiency = or_else (efficiencyInput inp) (Fin 100),
        rate = or_else (electricityRateInput inp) (lit 0.12),
        result =
          calculatePower (voltageInput inp) (currentInput inp) (phaseSelect inp)
            (or_else (powerFactorInput inp) (lit 0.9))
            (or_else (efficiencyInput inp) (Fin 100))
            (or_else (electricityRateInput inp) (lit 0.12))\<rparr>"

text \<open>A sequence of save actions, the earliest first; each is the field values together
  with the two clock readings.\<close>

fun saveAll :: "(FieldValues \<times> nat \<times> nat) list \<Rightarrow> storage \<Rightarrow> storage" where
  "saveAll [] st = st"
| "saveAll (s # rest) st = saveAll rest (saveCalculation (fst s) (fst (snd s)) (snd (snd s)) st)"

definition saved_item_of :: "FieldValues \<times> nat \<times> nat \<Rightarrow> json_number HistoryItem" where
  "saved_item_of s = saved_item (fst s) (fst (snd s)) (snd (snd s))"

text \<open>Concrete values for the instances below: a storage without keys, field values that
  pass validation (120 V, 10 A) and field values that fail it (no voltage).\<close>

definition empty_storage :: storage where
  "empty_storage = \<lparr>theme = None, calculationHistory = None\<rparr>"

definition good_fields :: FieldValues where
  "good_fields =
     \<lparr>voltageInput = Fin 120, currentInput = Fin 10, phaseSelect = Fin 1,
      powerFactorInput = Fin 1, efficiencyInput = Fin 100, electricityRateInput = Fin 1\<rparr>"

definition bad_fields :: FieldValues where
  "bad_fields =
     \<lparr>voltageInput = NaN, currentInput = Fin 10, phaseSelect = Fin 1,
      powerFactorInput = Fin 1, efficiencyInput = Fin 100, electricityRateInput = Fin 1\<rparr>"

text \<open>The value at which an optional field is taken: the default \<open>d\<close> when the field parses
  to not-a-number or to 0, the parsed value otherwise.\<close>

definition with_default :: "number \<Rightarrow> number \<Rightarrow> number" where
  "with_default x d = (if x = NaN \<or> x = Fin 0 then d else x)"

section \<open>Properties of the validator\<close>

lemma voltage_block:
  "(if isNaN v then push es (description VALIDATION_RULES_voltage @ '' is required'')
    else if num_le v (rmin VALIDATION_RULES_voltage)
    then push es (description VALIDATION_RULES_voltage @ '' must be greater than 0'')
    else if num_gt v (rmax VALIDATION_RULES_voltage)
    then push es (description VALIDATION_RULES_voltage @ '' exceeds maximum limit'')
    else es) = es @ voltage_errors v"
  by (simp add: push_def VALIDATION_RULES_voltage_def voltage_errors_def voltage_message_def)

lemma current_block:
  "(if isNaN c then push es (description VALIDATION_RULES_current @ '' is required'')
    else if num_le c (rmin VALIDATION_RULES_current)
    then push es (description VALIDATION_RULES_current @ '' must be greater than 0'')
    else if num_gt c (rmax VALIDATION_RULES_current)
    then push es (description VALIDATION_RULES_current @ '' exceeds maximum limit'')
    else es) = es @ current_errors c"
  by (simp add: push_def VALIDATION_RULES_current_def current_errors_def current_message_def)

lemma powerFactor_block:
  "(if \<not> isNaN p
    then (if num_lt p (rmin VALIDATION_RULES_powerFactor)
             \<or> num_gt p (rmax VALIDATION_RULES_powerFactor)
          then push es
            (description VALIDATION_RULES_powerFactor @ '' must be between 0.5 and 1.0'')
          else es)
    else es) = es @ powerFactor_errors p"
  by (simp add: push_def VALIDATION_RULES_powerFactor_def powerFactor_errors_def outside_def)

lemma efficiency_block:
  "(if \<not> isNaN e
    then (if num_lt e (rmin VALIDATION_RULES_efficiency)
             \<or> num_gt e (rmax VALIDATION_RULES_efficiency)
          then push es
            (description VALIDATION_RULES_efficiency @ '' must be between 0 and 100'')
          else es)
    else es) = es @ efficiency_errors e"
  by (simp add: push_def VALIDATION_RULES_efficiency_def efficiency_errors_def outside_def)


lemma validateInputs_eq:
  "validateInputs v c p e r =
     (let es = voltage_errors v @ current_errors c @ powerFactor_errors p @ efficiency_errors e
      in \<lparr>isValid = (es = []), errors = es\<rparr>)"
  by (simp only: validateInputs_def Let_def voltage_block current_block powerFactor_block
    efficiency_block append_Nil append_assoc length_0_conv)

lemma errors_validateInputs:
  "errors (validateInputs v c p e r) =
     voltage_errors v @ current_errors c @ powerFactor_errors p @ efficiency_errors e"
  by (simp only: validateInputs_eq Let_def ValidationResult.simps)

lemma isValid_validateInputs:
  "isValid (validateInputs v c p e r) = (errors (validateInputs v c p e r) = [])"
  by (simp only: validateInputs_eq Let_def ValidationResult.simps)

lemma voltage_errors_required:
  "isNaN v \<or> num_le v (Fin 0) \<Longrightarrow> voltage_errors v = [voltage_message v]"
  unfolding voltage_errors_def by (cases "isNaN v") simp_all

lemma voltage_message_cases:
  "isNaN v \<or> num_le v (Fin 0) \<Longrightarrow>
     voltage_message v = ''Voltage is required'' \<or> voltage_message v = ''Voltage must be greater than 0''"
  unfolding voltage_message_def by (cases "isNaN v") simp_all

lemma current_errors_exceeds:
  assumes "num_gt c (Fin 100000)"
  shows "current_errors c = [''Current exceeds maximum limit'']"
proof -
  have "\<not> isNaN c" "\<not> num_le c (Fin 0)"
    using assms by (cases c; simp add: num_gt_def num_le_def)+
  then show ?thesis
    using assms by (simp only: current_errors_def current_message_def if_True if_False simp_thms)
qed

text \<open>
  Claim C2. For every input, \<open>validateInputs\<close> returns the errors of the four fields in
  the order voltage, current, power factor, efficiency, each field judged on its own: a
  voltage error when the voltage is not-a-number, at most 0 or above 1,000,000; a
  current error when the current is not-a-number, at most 0 or above 100,000; a power
  factor error when the power factor is a number outside 0.5 to 1.0; an efficiency
  error when the efficiency is a number outside 0 to 100. \<open>isValid\<close> holds exactly when
  the list is empty. In particular a voltage that is not-a-number or at most 0 gives a
  voltage error, and a current above 100,000 gives the message that the current
  exceeds the limit. The function is total and reads nothing but its arguments, so it
  neither throws nor has an effect.
\<close>

theorem validateInputs_rules:
  "errors (validateInputs v c p e r) =
     voltage_errors v @ current_errors c @ powerFactor_errors p @ efficiency_errors e
   \<and> isValid (validateInputs v c p e r) = (errors (validateInputs v c p e r) = [])
   \<and> (isNaN v \<or> num_le v (Fin 0) \<longrightarrow>
        voltage_message v \<in> set (errors (validateInputs v c p e r))
        \<and> (voltage_message v = ''Voltage is required''
           \<or> voltage_message v = ''Voltage must be greater than 0''))
   \<and> (num_gt c (Fin 100000) \<longrightarrow>
        ''Current exceeds maximum limit'' \<in> set (errors (validateInputs v c p e r)))"
proof (intro conjI impI)
  show "errors (validateInputs v c p e r) =
     voltage_errors v @ current_errors c @ powerFactor_errors p @ efficiency_errors e"
    by (rule errors_validateInputs)
  show "isValid (validateInputs v c p e r) = (errors (validateInputs v c p e r) = [])"
    by (rule isValid_validateInputs)
next
  assume a: "isNaN v \<or> num_le v (Fin 0)"
  show "voltage_message v \<in> set (errors (validateInputs v c p e r))"
    by (simp only: errors_validateInputs voltage_errors_required[OF a] set_append list.set
        Un_iff insert_iff simp_thms)
  show "voltage_message v = ''Voltage is required''
           \<or> voltage_message v = ''Voltage must be greater than 0''"
    by (rule voltage_message_cases[OF a])
next
  assume a: "num_gt c (Fin 100000)"
  show "''Current exceeds maximum limit'' \<in> set (errors (validateInputs v c p e r))"
    by (simp only: errors_validateInputs current_errors_exceeds[OF a] set_append list.set
        Un_iff insert_iff simp_thms)
qed

theorem validateInputs_rules_witness:
  "(isNaN (Fin (- 5)) \<or> num_le (Fin (- 5)) (Fin 0))
   \<and> num_gt (Fin 200000) (Fin 100000)
   \<and> errors (validateInputs (Fin (- 5)) (Fin 200000) (Fin 2) NaN (Fin 0)) =
       [''Voltage must be greater than 0'', ''Current exceeds maximum limit'',
        ''Power Factor must be between 0.5 and 1.0'']
   \<and> \<not> isValid (validateInputs (Fin (- 5)) (Fin 200000) (Fin 2) NaN (Fin 0))
   \<and> ''Voltage must be greater than 0''
        \<in> set (errors (validateInputs (Fin (- 5)) (Fin 200000) (Fin 2) NaN (Fin 0)))
   \<and> ''Current exceeds maximum limit''
        \<in> set (errors (validateInputs (Fin (- 5)) (Fin 200000) (Fin 2) NaN (Fin 0)))"
  using validateInputs_rules [of "Fin (- 5)" "Fin 200000" "Fin 2" NaN "Fin 0"]
  by (simp add: voltage_errors_def current_errors_def powerFactor_errors_def
      efficiency_errors_def voltage_message_def current_message_def outside_def
      num_le_def num_gt_def)

text \<open>
  Claim C10. The result of \<open>validateInputs\<close> does not depend on the rate: any two rates
  give the same result. The rule for the rate in \<^verbatim>\<open>VALIDATION_RULES\<close> (0 to 10) is never
  applied, so a rate below its minimum or above its maximum passes validation.
\<close>

theorem validateInputs_ignores_rate:
  "validateInputs v c p e r1 = validateInputs v c p e r2
   \<and> num_lt (Fin (- 5)) (rmin VALIDATION_RULES_rate)
   \<and> isValid (validateInputs (Fin 120) (Fin 10) (Fin 1) (Fin 100) (Fin (- 5)))
   \<and> num_gt (Fin 11) (rmax VALIDATION_RULES_rate)
   \<and> isValid (validateInputs (Fin 120) (Fin 10) (Fin 1) (Fin 100) (Fin 11))"
proof (intro conjI)
  show "validateInputs v c p e r1 = validateInputs v c p e r2"
    unfolding validateInputs_def by (rule refl)
  show "num_lt (Fin (- 5)) (rmin VALIDATION_RULES_rate)"
    by (simp add: VALIDATION_RULES_rate_def)
  show "num_gt (Fin 11) (rmax VALIDATION_RULES_rate)"
    by (simp add: VALIDATION_RULES_rate_def num_gt_def)
  have "errors (validateInputs (Fin 120) (Fin 10) (Fin 1) (Fin 100) x) = []" for x
    unfolding errors_validateInputs
    by (simp add: voltage_errors_def current_errors_def powerFactor_errors_def
        efficiency_errors_def outside_def num_le_def num_gt_def)
  then show "isValid (validateInputs (Fin 120) (Fin 10) (Fin 1) (Fin 100) (Fin (- 5)))"
    and "isValid (validateInputs (Fin 120) (Fin 10) (Fin 1) (Fin 100) (Fin 11))"
    by (simp_all only: isValid_validateInputs)
qed

section \<open>Properties of the calculator\<close>

lemma strict_eq_one: "strict_eq p (Fin 1) = (p = Fin 1)"
  by (cases p) (simp_all add: strict_eq_def)

lemma calculatePower_fields:
  "kva (calculatePower V I p f e r) =
     (if p = Fin 1 then fdiv (fmul V I) (Fin 1000)
      else fdiv (fmul (fmul (Math_sqrt (Fin 3)) V) I) (Fin 1000))"
  "kw (calculatePower V I p f e r) = fmul (kva (calculatePower V I p f e r)) f"
  "kvar (calculatePower V I p f e r) =
     Math_sqrt (Math_max (Fin 0)
       (fsub (Math_pow2 (kva (calculatePower V I p f e r)))
             (Math_pow2 (kw (calculatePower V I p f e r)))))"
  "adjustedPower (calculatePower V I p f e r) =
     fmul (kw (calculatePower V I p f e r)) (fdiv e (Fin 100))"
  "costPerHour (calculatePower V I p f e r) = fmul (adjustedPower (calculatePower V I p f e r)) r"
  "costPerDay (calculatePower V I p f e r) = fmul (costPerHour (calculatePower V I p f e r)) (Fin 24)"
  "costPerMonth (calculatePower V I p f e r) = fmul (costPerDay (calculatePower V I p f e r)) (Fin 30)"
  "costPerYear (calculatePower V I p f e r) = fmul (costPerDay (calculatePower V I p f e r)) (Fin 365)"
  "pf (calculatePower V I p f e r) = f"
  "phase (calculatePower V I p f e r) = p"
  by (simp_all add: calculatePower_def Let_def strict_eq_one)

text \<open>
  Claim C1. For every voltage \<open>V\<close>, current \<open>I\<close>, phase \<open>p\<close>, power factor \<open>f\<close>, efficiency
  \<open>e\<close> and rate \<open>r\<close>, \<open>calculatePower\<close> returns the record of the algorithm: the apparent
  power is \<open>V \<times> I / 1000\<close> when \<open>p\<close> is 1 and \<open>\<surd>3 \<times> V \<times> I / 1000\<close> otherwise; the real
  power is the apparent power times \<open>f\<close>; the adjusted power is the real power times
  \<open>e / 100\<close>; the reactive power is the clamped square root; the cost per hour is the
  adjusted power times \<open>r\<close>, per day 24 times that, per month 30 and per year 365 times
  the cost per day; the fields \<open>pf\<close> and \<open>phase\<close> are the arguments \<open>f\<close> and \<open>p\<close>.
\<close>

theorem calculatePower_algorithm:
  "(let R = calculatePower V I p f e r
    in kva R = (if p = Fin 1 then fdiv (fmul V I) (Fin 1000)
                else fdiv (fmul (fmul (Math_sqrt (Fin 3)) V) I) (Fin 1000))
     \<and> kw R = fmul (kva R) f
     \<and> adjustedPower R = fmul (kw R) (fdiv e (Fin 100))
     \<and> kvar R = Math_sqrt (Math_max (Fin 0) (fsub (Math_pow2 (kva R)) (Math_pow2 (kw R))))
     \<and> costPerHour R = fmul (adjustedPower R) r
     \<and> costPerDay R = fmul (costPerHour R) (Fin 24)
     \<and> costPerMonth R = fmul (costPerDay R) (Fin 30)
     \<and> costPerYear R = fmul (costPerDay R) (Fin 365)
     \<and> pf R = f
     \<and> phase R = p)"
  unfolding Let_def by (intro conjI calculatePower_fields)

text \<open>
  Claim C9. \<open>calculatePower\<close> takes the single-phase formula exactly when the phase is 1:
  every other phase value, 3 or not (2 and not-a-number for instance), gets the
  three-phase formula.
\<close>

theorem calculatePower_phase_selection:
  "(p = Fin 1 \<longrightarrow> kva (calculatePower V I p f e r) = fdiv (fmul V I) (Fin 1000))
   \<and> (p \<noteq> Fin 1 \<longrightarrow>
        kva (calculatePower V I p f e r) =
          fdiv (fmul (fmul (Math_sqrt (Fin 3)) V) I) (Fin 1000))
   \<and> kva (calculatePower V I (Fin 2) f e r) =
        fdiv (fmul (fmul (Math_sqrt (Fin 3)) V) I) (Fin 1000)
   \<and> kva (calculatePower V I NaN f e r) =
        fdiv (fmul (fmul (Math_sqrt (Fin 3)) V) I) (Fin 1000)"
  by (simp add: calculatePower_fields(1))

theorem calculatePower_phase_selection_witness:
  "Fin 1 = Fin 1
   \<and> kva (calculatePower (Fin 120) (Fin 10) (Fin 1) (Fin 1) (Fin 100) (Fin 0)) =
        fdiv (fmul (Fin 120) (Fin 10)) (Fin 1000)
   \<and> Fin 3 \<noteq> Fin 1
   \<and> kva (calculatePower (Fin 120) (Fin 10) (Fin 3) (Fin 1) (Fin 100) (Fin 0)) =
        fdiv (fmul (fmul (Math_sqrt (Fin 3)) (Fin 120)) (Fin 10)) (Fin 1000)"
  using calculatePower_phase_selection [of "Fin 1" "Fin 120" "Fin 10" "Fin 1" "Fin 100" "Fin 0"]
    calculatePower_phase_selection [of "Fin 3" "Fin 120" "Fin 10" "Fin 1" "Fin 100" "Fin 0"]
  by simp

subsection \<open>A worked example\<close>

lemma ulp_exp_eq:
  assumes "2 powi k \<le> \<bar>x\<bar>" "\<bar>x\<bar> < 2 powi (k + 1)"
  shows "ulp_exp x = max k (- 1022) - 52"
proof -
  have pos: "0 < \<bar>x\<bar>" using assms(1) by (smt (verit) zero_less_power_int)
  have "2 powr (of_int k) \<le> \<bar>x\<bar>" "\<bar>x\<bar> < 2 powr (of_int (k + 1))"
    using assms by (simp_all add: powr_real_of_int' del: of_int_add)
  then have "\<lfloor>log 2 \<bar>x\<bar>\<rfloor> = k"
    using pos by (simp add: floor_log_eq_powr_iff)
  then show ?thesis by (simp add: ulp_exp_def)
qed

lemma fl_1200: "fl 1200 = Fin 1200"
proof -
  have "ulp_exp 1200 = - 42"
    using ulp_exp_eq[of 10 1200] by simp
  then show ?thesis
    by (simp add: fl_def Let_def round_even_def power_int_minus field_simps)
qed

lemma fl_1: "fl 1 = Fin 1"
proof -
  have "ulp_exp 1 = - 52"
    using ulp_exp_eq[of 0 1] by simp
  then show ?thesis
    by (simp add: fl_def Let_def round_even_def power_int_minus field_simps)
qed

lemma fl_12: "fl (6/5) = Fin (5404319552844595 / 2 ^ 52)"
proof -
  have "ulp_exp (6/5) = - 52"
    using ulp_exp_eq[of 0 "6/5"] by simp
  then show ?thesis
    by (simp add: fl_def Let_def round_even_def power_int_minus field_simps)
qed

lemma fl_12d: "fl (5404319552844595 / 2 ^ 52) = Fin (5404319552844595 / 2 ^ 52)"
proof -
  have "ulp_exp (5404319552844595 / 2 ^ 52) = - 52"
    using ulp_exp_eq[of 0 "5404319552844595 / 2 ^ 52"] by simp
  then show ?thesis
    by (simp add: fl_def Let_def round_even_def power_int_minus field_simps)
qed

lemma fl_012: "fl (3/25) = Fin (1080863910568919 / 2 ^ 53)"
proof -
  have "ulp_exp (3/25) = - 56"
    using ulp_exp_eq[of "-4" "3/25"] by (simp add: power_int_minus)
  then show ?thesis
    by (simp add: fl_def Let_def round_even_def power_int_minus field_simps)
qed

lemma fl_0144: "fl (18/125) = Fin (5188146770730811 / 2 ^ 55)"
proof -
  have "ulp_exp (18/125) = - 55"
    using ulp_exp_eq[of "-3" "18/125"] by (simp add: power_int_minus)
  then show ?thesis
    by (simp add: fl_def Let_def round_even_def power_int_minus field_simps)
qed

lemma fl_prod: "fl (5404319552844595 / 2 ^ 52 * (1080863910568919 / 2 ^ 53)) = Fin (5188146770730811 / 2 ^ 55)"
proof -
  have "ulp_exp (5404319552844595 / 2 ^ 52 * (1080863910568919 / 2 ^ 53)) = - 55"
    using ulp_exp_eq[of "-3" "5404319552844595 / 2 ^ 52 * (1080863910568919 / 2 ^ 53)"] by (simp add: power_int_minus)
  then show ?thesis
    by (simp add: fl_def Let_def round_even_def power_int_minus field_simps)
qed

lemma fl_sq: "fl (5404319552844595 / 2 ^ 52 * (5404319552844595 / 2 ^ 52)) = Fin (3242591731706757 / 2 ^ 51)"
proof -
  have "ulp_exp (5404319552844595 / 2 ^ 52 * (5404319552844595 / 2 ^ 52)) = - 52"
    using ulp_exp_eq[of "0" "5404319552844595 / 2 ^ 52 * (5404319552844595 / 2 ^ 52)"] by (simp add: power_int_minus)
  then show ?thesis
    by (simp add: fl_def Let_def round_even_def power_int_minus field_simps)
qed

lemma fl_0: "fl 0 = Fin 0"
  by (simp add: fl_def)

text \<open>
  Claim C8. \<open>calculatePower\<close> at 120 V, 10 A, single phase, power factor 1.0, efficiency
  100 and rate 0.12 returns exactly the doubles that the literals \<open>1.2\<close>, \<open>1.2\<close>, \<open>0\<close>,
  \<open>1.2\<close> and \<open>0.144\<close> denote as apparent, real, reactive and adjusted power and cost per
  hour.
\<close>

theorem calculatePower_example:
  "(let R = calculatePower (Fin 120) (Fin 10) (Fin 1) (Fin 1) (Fin 100) (lit 0.12)
    in kva R = lit 1.2 \<and> kw R = lit 1.2 \<and> kvar R = Fin 0 \<and> adjustedPower R = lit 1.2
     \<and> costPerHour R = lit 0.144)"
proof -
  define R where "R = calculatePower (Fin 120) (Fin 10) (Fin 1) (Fin 1) (Fin 100) (lit 0.12)"
  have kva: "kva R = Fin (5404319552844595 / 2 ^ 52)"
    unfolding R_def calculatePower_fields by (simp add: fl_1200 fl_12)
  have kw: "kw R = Fin (5404319552844595 / 2 ^ 52)"
    unfolding R_def calculatePower_fields(2) unfolding R_def[symmetric] kva
    using fl_12d by simp
  have kvar: "kvar R = Fin 0"
    unfolding R_def calculatePower_fields(3) unfolding R_def[symmetric] kva kw
    using fl_sq by (simp add: fl_0 Math_max_def)
  have adj: "adjustedPower R = Fin (5404319552844595 / 2 ^ 52)"
    unfolding R_def calculatePower_fields(4) unfolding R_def[symmetric] kw
    using fl_12d by (simp add: fl_1)
  have cost: "costPerHour R = Fin (5188146770730811 / 2 ^ 55)"
    unfolding R_def calculatePower_fields(5) unfolding R_def[symmetric] adj
    using fl_prod fl_012 by (simp add: lit_def)
  have l12: "lit 1.2 = Fin (5404319552844595 / 2 ^ 52)"
    using fl_12 by (simp add: lit_def)
  have l144: "lit 0.144 = Fin (5188146770730811 / 2 ^ 55)"
    using fl_0144 by (simp add: lit_def)
  show ?thesis
    unfolding Let_def R_def[symmetric] kva kw kvar adj cost l12 l144 by simp
qed

section \<open>Reactive power\<close>

lemma round_even_nonneg: "0 \<le> y \<Longrightarrow> 0 \<le> round_even y"
  by (simp add: round_even_def Let_def)

lemma fl_not_negative:
  assumes "0 \<le> x"
  shows "\<not> num_lt (fl x) (Fin 0)"
proof -
  have "0 \<le> of_int (round_even (x / 2 powi ulp_exp x)) * (2::real) powi ulp_exp x"
    using assms by (intro mult_nonneg_nonneg) (simp_all add: round_even_nonneg)
  then show ?thesis
    by (simp add: fl_def Let_def)
qed

lemma Math_sqrt_not_negative: "\<not> num_lt (Math_sqrt x) (Fin 0)"
  by (cases x) (simp_all add: fl_not_negative)

lemma Math_max_not_negative: "\<not> num_lt (Math_max (Fin 0) x) (Fin 0)"
  by (cases x) (simp_all add: Math_max_def)

subsection \<open>Bounds that survive rounding\<close>

lemma round_even_lower: "\<lfloor>y\<rfloor> \<le> round_even y"
  by (simp add: round_even_def Let_def)

lemma round_even_upper: "round_even y \<le> \<lceil>y\<rceil>"
proof -
  have "\<lfloor>y\<rfloor> + 1 \<le> \<lceil>y\<rceil>" if "0 < y - of_int \<lfloor>y\<rfloor>"
    using that by linarith
  then show ?thesis
    by (auto simp: round_even_def Let_def)
qed

lemma round_even_abs_le:
  assumes "\<bar>y\<bar> \<le> of_int N"
  shows "\<bar>round_even y\<bar> \<le> N"
proof -
  have "round_even y \<le> N"
    using round_even_upper[of y] assms by (simp add: ceiling_le_iff abs_le_iff order.trans)
  moreover have "- N \<le> round_even y"
    using round_even_lower[of y] assms by (smt (verit) le_floor_iff of_int_minus)
  ultimately show ?thesis by simp
qed

lemma ulp_exp_le:
  assumes "x \<noteq> 0" "\<bar>x\<bar> \<le> 2 ^ k"
  shows "ulp_exp x \<le> int k - 52"
proof -
  have "log 2 \<bar>x\<bar> \<le> log 2 (2 ^ k)"
    using assms by (intro log_mono) simp_all
  then have "log 2 \<bar>x\<bar> \<le> real k" by simp
  then have "\<lfloor>log 2 \<bar>x\<bar>\<rfloor> \<le> int k"
    by (simp add: floor_le_iff)
  then show ?thesis by (simp add: ulp_exp_def)
qed

lemma fl_bounded:
  assumes "\<bar>x\<bar> \<le> 2 ^ k" "k < 1024"
  shows "\<exists>y. fl x = Fin y \<and> \<bar>y\<bar> \<le> 2 ^ k \<and> (0 \<le> x \<longrightarrow> 0 \<le> y)"
proof (cases "x = 0")
  case True
  then show ?thesis by (simp add: fl_def)
next
  case False
  define e where "e = ulp_exp x"
  define u :: real where "u = 2 powi e"
  define m where "m = round_even (x / u)"
  define N :: int where "N = 2 ^ nat (int k - e)"
  have e: "e \<le> int k - 52" unfolding e_def using False assms(1) by (rule ulp_exp_le)
  have u: "0 < u" by (simp add: u_def)
  have Nu: "of_int N * u = 2 ^ k"
  proof -
    have "of_int N = (2::real) powi (int k - e)"
      using e by (simp add: N_def power_int_def)
    moreover have "(2::real) powi (int k - e + e) = 2 powi (int k - e) * 2 powi e"
      by (rule power_int_add) simp
    ultimately have "of_int N * u = (2::real) powi (int k - e + e)"
      unfolding u_def by (simp only:)
    then show ?thesis by simp
  qed
  have "\<bar>x / u\<bar> \<le> 2 ^ k / u"
    using assms(1) u by (simp add: divide_right_mono)
  also have "\<dots> = of_int N"
    using Nu u by (simp add: field_simps)
  finally have m: "\<bar>m\<bar> \<le> N"
    unfolding m_def by (rule round_even_abs_le)
  have "\<bar>of_int m * u\<bar> = of_int \<bar>m\<bar> * u"
    using u by (simp add: abs_mult)
  also have "\<dots> \<le> of_int N * u"
    using m u by (intro mult_right_mono) simp_all
  finally have r: "\<bar>of_int m * u\<bar> \<le> 2 ^ k"
    by (simp add: Nu)
  have "(2::real) ^ k < 2 ^ 1024"
    using assms(2) by (intro power_strict_increasing) simp_all
  with r have fin: "\<not> 2 ^ 1024 \<le> of_int m * u" "\<not> of_int m * u \<le> - (2 ^ 1024)"
    by linarith+
  have pos: "0 \<le> of_int m * u" if "0 \<le> x"
  proof -
    have "0 \<le> x / u" using that u by simp
    then have "0 \<le> m" unfolding m_def by (simp add: round_even_def Let_def)
    then show ?thesis using u by simp
  qed
  have "fl x = Fin (of_int m * u)"
    using False fin by (simp add: fl_def Let_def m_def u_def e_def)
  with r pos show ?thesis by simp
qed

lemma fl_in_range:
  assumes "0 \<le> x" "x \<le> 2 ^ k" "k < 1024"
  shows "in_range k (fl x)"
proof -
  from assms have "\<bar>x\<bar> \<le> 2 ^ k" by simp
  from fl_bounded[OF this assms(3)] assms(1)
  obtain y where "fl x = Fin y" "\<bar>y\<bar> \<le> 2 ^ k" "0 \<le> y" by auto
  then show ?thesis by (simp add: in_range_def)
qed

lemma in_rangeE:
  assumes "in_range k x"
  obtains a where "x = Fin a" "0 \<le> a" "a \<le> 2 ^ k"
  using assms by (cases x) (simp_all add: in_range_def)

lemma fmul_in_range:
  assumes "in_range j x" "in_range k y" "j + k < 1024"
  shows "in_range (j + k) (fmul x y)"
proof -
  from assms(1) obtain a where a: "x = Fin a" "0 \<le> a" "a \<le> 2 ^ j" by (rule in_rangeE)
  from assms(2) obtain b where b: "y = Fin b" "0 \<le> b" "b \<le> 2 ^ k" by (rule in_rangeE)
  have "a * b \<le> 2 ^ j * 2 ^ k"
    using a b by (intro mult_mono) simp_all
  then have "a * b \<le> 2 ^ (j + k)" by (simp add: power_add)
  moreover have "0 \<le> a * b" using a b by simp
  ultimately show ?thesis
    using assms(3) by (simp add: a b fl_in_range)
qed

lemma fdiv_in_range:
  assumes "in_range j x" "1 \<le> c" "j < 1024"
  shows "in_range j (fdiv x (Fin c))"
proof -
  from assms(1) obtain a where a: "x = Fin a" "0 \<le> a" "a \<le> 2 ^ j" by (rule in_rangeE)
  have "a / c \<le> a" using a(2) assms(2) by (simp add: divide_le_eq mult_le_cancel_left1 mult.commute)
  then have "a / c \<le> 2 ^ j" using a(3) by linarith
  moreover have "0 \<le> a / c" using a(2) assms(2) by simp
  ultimately show ?thesis
    using assms(2,3) by (simp add: a fl_in_range)
qed

lemma pow2_in_range:
  assumes "in_range j x" "j + j < 1024"
  shows "in_range (j + j) (Math_pow2 x)"
proof -
  from assms(1) obtain a where a: "x = Fin a" "0 \<le> a" "a \<le> 2 ^ j" by (rule in_rangeE)
  have "a * a \<le> 2 ^ j * 2 ^ j"
    using a by (intro mult_mono) simp_all
  then have "a * a \<le> 2 ^ (j + j)" by (simp add: power_add)
  moreover have "0 \<le> a * a" using a by simp
  ultimately show ?thesis
    using assms(2) by (simp add: a fl_in_range)
qed

lemma sqrt_in_range:
  assumes "in_range k x" "k < 1024"
  shows "in_range k (Math_sqrt x)"
proof -
  from assms(1) obtain a where a: "x = Fin a" "0 \<le> a" "a \<le> 2 ^ k" by (rule in_rangeE)
  have "sqrt a \<le> sqrt ((2 ^ k)\<^sup>2)"
  proof -
    have "(1::real) \<le> 2 ^ k" by simp
    then have "(2::real) ^ k * 1 \<le> 2 ^ k * 2 ^ k" by (intro mult_left_mono) simp_all
    with a(3) have "a \<le> 2 ^ k * 2 ^ k" by linarith
    then have "a \<le> (2 ^ k)\<^sup>2" by (simp only: power2_eq_square)
    then show ?thesis by (rule real_sqrt_le_mono)
  qed
  then have "sqrt a \<le> 2 ^ k" by (simp only: real_sqrt_abs) simp
  moreover have "0 \<le> sqrt a" using a(2) by simp
  moreover have "\<not> a < 0" using a(2) by simp
  ultimately show ?thesis
    using assms(2) by (simp add: a(1) fl_in_range)
qed

lemma clamped_difference_in_range:
  assumes "in_range k x" "in_range k y" "k < 1024"
  shows "in_range k (Math_max (Fin 0) (fsub x y))"
proof -
  from assms(1) obtain a where a: "x = Fin a" "0 \<le> a" "a \<le> 2 ^ k" by (rule in_rangeE)
  from assms(2) obtain b where b: "y = Fin b" "0 \<le> b" "b \<le> 2 ^ k" by (rule in_rangeE)
  have "\<bar>a - b\<bar> \<le> 2 ^ k" using a b by linarith
  from fl_bounded[OF this assms(3)]
  obtain d where d: "fl (a - b) = Fin d" "\<bar>d\<bar> \<le> 2 ^ k" by auto
  then have "d \<le> 2 ^ k" by linarith
  with d(1) show ?thesis
    by (simp add: a b Math_max_def in_range_def)
qed

lemma in_range_mono: "in_range j x \<Longrightarrow> j \<le> k \<Longrightarrow> in_range k x"
proof -
  assume w: "in_range j x" and jk: "j \<le> k"
  from w obtain a where a: "x = Fin a" "0 \<le> a" "a \<le> 2 ^ j" by (rule in_rangeE)
  have "(2::real) ^ j \<le> 2 ^ k" using jk by (intro power_increasing) simp_all
  with a(3) have "a \<le> 2 ^ k" by linarith
  with a show ?thesis by (simp add: in_range_def)
qed


lemma in_range_finite_nonneg: "in_range k x \<Longrightarrow> finite_nonneg x"
  by (cases x) (simp_all add: in_range_def finite_nonneg_def)

lemma valid_parts:
  assumes "isValid (validateInputs V I f e r)"
  shows "voltage_errors V = []" "current_errors I = []" "powerFactor_errors f = []"
  using assms unfolding isValid_validateInputs errors_validateInputs by simp_all

lemma valid_voltage_in_range:
  assumes "voltage_errors V = []"
  shows "in_range 20 V"
proof -
  from assms have *: "\<not> isNaN V" "\<not> num_le V (Fin 0)" "\<not> num_gt V (Fin 1000000)"
    unfolding voltage_errors_def by (simp_all split: if_splits)
  then show ?thesis
    by (cases V) (simp_all add: num_le_def num_gt_def in_range_def)
qed

lemma valid_current_in_range:
  assumes "current_errors I = []"
  shows "in_range 17 I"
proof -
  from assms have *: "\<not> isNaN I" "\<not> num_le I (Fin 0)" "\<not> num_gt I (Fin 100000)"
    unfolding current_errors_def by (simp_all split: if_splits)
  then show ?thesis
    by (cases I) (simp_all add: num_le_def num_gt_def in_range_def)
qed

lemma valid_powerFactor_in_range:
  assumes "powerFactor_errors f = []" "\<not> isNaN f"
  shows "in_range 0 f"
proof -
  from assms have *: "\<not> num_lt f (Fin (1 / 2))" "\<not> num_gt f (Fin 1)"
    unfolding powerFactor_errors_def outside_def by (simp_all split: if_splits)
  then show ?thesis
    using assms(2) by (cases f) (simp_all add: num_gt_def in_range_def)
qed

lemma kva_in_range:
  assumes "in_range 20 V" "in_range 17 I"
  shows "in_range 39 (kva (calculatePower V I p f e r))"
proof (cases "p = Fin 1")
  case True
  have "in_range (20 + 17) (fmul V I)"
    using assms by (rule fmul_in_range) simp
  then have "in_range (20 + 17) (fdiv (fmul V I) (Fin 1000))"
    by (rule fdiv_in_range) simp_all
  then have "in_range 39 (fdiv (fmul V I) (Fin 1000))"
    by (rule in_range_mono) simp
  with True show ?thesis by (simp add: calculatePower_fields(1))
next
  case False
  have "in_range 2 (Fin 3)" by (simp add: in_range_def)
  then have "in_range 2 (Math_sqrt (Fin 3))" by (rule sqrt_in_range) simp
  then have "in_range (2 + 20) (fmul (Math_sqrt (Fin 3)) V)"
    using assms(1) by (rule fmul_in_range) simp
  then have "in_range (2 + 20 + 17) (fmul (fmul (Math_sqrt (Fin 3)) V) I)"
    using assms(2) by (rule fmul_in_range) simp
  then have "in_range (2 + 20 + 17) (fdiv (fmul (fmul (Math_sqrt (Fin 3)) V) I) (Fin 1000))"
    by (rule fdiv_in_range) simp_all
  with False show ?thesis by (simp add: calculatePower_fields(1))
qed

lemma kvar_in_range:
  assumes "isValid (validateInputs V I f e r)" "\<not> isNaN f"
  shows "in_range 78 (kvar (calculatePower V I p f e r))"
proof -
  let ?R = "calculatePower V I p f e r"
  have V: "in_range 20 V" and I: "in_range 17 I" and f: "in_range 0 f"
    using valid_parts[OF assms(1)] assms(2)
    by (simp_all add: valid_voltage_in_range valid_current_in_range valid_powerFactor_in_range)
  have kva: "in_range 39 (kva ?R)"
    using V I by (rule kva_in_range)
  have "in_range (39 + 0) (fmul (kva ?R) f)"
    using kva f by (rule fmul_in_range) simp
  then have kw: "in_range 39 (kw ?R)"
    by (simp add: calculatePower_fields(2))
  have "in_range (39 + 39) (Math_pow2 (kva ?R))"
    using kva by (rule pow2_in_range) simp
  moreover have "in_range (39 + 39) (Math_pow2 (kw ?R))"
    using kw by (rule pow2_in_range) simp
  ultimately have "in_range (39 + 39)
      (Math_max (Fin 0) (fsub (Math_pow2 (kva ?R)) (Math_pow2 (kw ?R))))"
    by (rule clamped_difference_in_range) simp
  then have "in_range (39 + 39)
      (Math_sqrt (Math_max (Fin 0) (fsub (Math_pow2 (kva ?R)) (Math_pow2 (kw ?R)))))"
    by (rule sqrt_in_range) simp
  then show ?thesis
    unfolding calculatePower_fields(3)[symmetric] by simp
qed

text \<open>
  Claim C4. For every input, the reactive power that \<open>calculatePower\<close> returns, and the
  one that the helper \<open>calculateReactivePower\<close> returns, is the square root of the
  maximum of 0 and the difference of the squares of apparent and real power. The
  maximum is never below 0, so the square root is never taken of a negative number, and
  the reactive power is never negative, whatever the power factor. For input that
  passes validation with a power factor given (so between 0.5 and 1.0), the reactive
  power is moreover a finite number that is at least 0.
\<close>

theorem reactive_power_clamped:
  "(let R = calculatePower V I p f e r;
        radicand = Math_max (Fin 0) (fsub (Math_pow2 (kva R)) (Math_pow2 (kw R)))
    in kvar R = Math_sqrt radicand
     \<and> calculateReactivePower (kva R) (kw R) = kvar R
     \<and> \<not> num_lt radicand (Fin 0)
     \<and> \<not> num_lt (kvar R) (Fin 0)
     \<and> (isValid (validateInputs V I f e r) \<and> \<not> isNaN f \<longrightarrow> finite_nonneg (kvar R)))
   \<and> calculateReactivePower S P = Math_sqrt (Math_max (Fin 0) (fsub (Math_pow2 S) (Math_pow2 P)))
   \<and> \<not> num_lt (Math_max (Fin 0) (fsub (Math_pow2 S) (Math_pow2 P))) (Fin 0)
   \<and> \<not> num_lt (calculateReactivePower S P) (Fin 0)"
  unfolding Let_def
proof (intro conjI)
  let ?R = "calculatePower V I p f e r"
  show "kvar ?R = Math_sqrt (Math_max (Fin 0) (fsub (Math_pow2 (kva ?R)) (Math_pow2 (kw ?R))))"
    by (rule calculatePower_fields(3))
  then show "calculateReactivePower (kva ?R) (kw ?R) = kvar ?R"
    by (simp only: calculateReactivePower_def)
  show "\<not> num_lt (Math_max (Fin 0) (fsub (Math_pow2 (kva ?R)) (Math_pow2 (kw ?R)))) (Fin 0)"
    by (rule Math_max_not_negative)
  show "\<not> num_lt (kvar ?R) (Fin 0)"
    unfolding calculatePower_fields(3) by (rule Math_sqrt_not_negative)
  show "isValid (validateInputs V I f e r) \<and> \<not> isNaN f \<longrightarrow> finite_nonneg (kvar ?R)"
    using kvar_in_range [of V I f e r p] by (blast intro: in_range_finite_nonneg)
  show "calculateReactivePower S P =
      Math_sqrt (Math_max (Fin 0) (fsub (Math_pow2 S) (Math_pow2 P)))"
    by (simp only: calculateReactivePower_def)
  show "\<not> num_lt (Math_max (Fin 0) (fsub (Math_pow2 S) (Math_pow2 P))) (Fin 0)"
    by (rule Math_max_not_negative)
  show "\<not> num_lt (calculateReactivePower S P) (Fin 0)"
    unfolding calculateReactivePower_def by (rule Math_sqrt_not_negative)
qed

theorem reactive_power_clamped_witness:
  "isValid (validateInputs (Fin 120) (Fin 10) (Fin 1) (Fin 100) (Fin 0))
   \<and> \<not> isNaN (Fin 1)
   \<and> finite_nonneg (kvar (calculatePower (Fin 120) (Fin 10) (Fin 3) (Fin 1) (Fin 100) (Fin 0)))"
proof -
  have "errors (validateInputs (Fin 120) (Fin 10) (Fin 1) (Fin 100) (Fin 0)) = []"
    unfolding errors_validateInputs
    by (simp add: voltage_errors_def current_errors_def powerFactor_errors_def
        efficiency_errors_def outside_def num_le_def num_gt_def)
  then have v: "isValid (validateInputs (Fin 120) (Fin 10) (Fin 1) (Fin 100) (Fin 0))"
    by (simp only: isValid_validateInputs)
  have "isValid (validateInputs (Fin 120) (Fin 10) (Fin 1) (Fin 100) (Fin 0)) \<and> \<not> isNaN (Fin 1)
      \<longrightarrow> finite_nonneg (kvar (calculatePower (Fin 120) (Fin 10) (Fin 3) (Fin 1) (Fin 100) (Fin 0)))"
    using reactive_power_clamped [of "Fin 120" "Fin 10" "Fin 3" "Fin 1" "Fin 100" "Fin 0" NaN NaN]
    unfolding Let_def by (elim conjE)
  with v show ?thesis
    by simp
qed

section \<open>Properties of the history store\<close>

lemma saveCalculation_accepted:
  assumes "accepted inp"
  shows "saveCalculation inp now1 now2 st =
     st\<lparr>calculationHistory := Some (take 10 (saved_item inp now1 now2 # getHistory st))\<rparr>"
proof -
  have "take 10 (x # xs) = (if length (x # xs) > 10 then take 10 (x # xs) else x # xs)"
    for x :: "json_number HistoryItem" and xs
    by simp
  then show ?thesis
    using assms unfolding saveCalculation_def accepted_def saved_item_def Let_def
    by (simp only: if_False simp_thms)
qed

lemma saveCalculation_rejected:
  assumes "\<not> accepted inp"
  shows "saveCalculation inp now1 now2 st = st"
  using assms unfolding saveCalculation_def accepted_def Let_def
  by (simp only: if_True simp_thms)

lemma getHistory_update [simp]:
  "getHistory (st\<lparr>calculationHistory := Some h\<rparr>) = h"
  "getHistory (st\<lparr>calculationHistory := None\<rparr>) = []"
  by (simp_all add: getHistory_def)

lemma getHistory_save:
  "accepted inp \<Longrightarrow>
     getHistory (saveCalculation inp now1 now2 st) =
       saved_item inp now1 now2 # take 9 (getHistory st)"
  by (simp add: saveCalculation_accepted)

lemma getHistory_delete:
  "getHistory (deleteHistoryItem i st) = filter (\<lambda>h. item_id h \<noteq> i) (getHistory st)"
  by (simp add: deleteHistoryItem_def Let_def)

lemma getHistory_clear:
  "getHistory (clearHistory confirmed st) = (if confirmed then [] else getHistory st)"
  by (simp add: clearHistory_def)

lemma length_getHistory_save:
  "length (getHistory st) \<le> 10 \<Longrightarrow> length (getHistory (saveCalculation inp now1 now2 st)) \<le> 10"
  by (cases "accepted inp") (simp_all add: saveCalculation_accepted saveCalculation_rejected)

lemma reachable_length: "reachable st \<Longrightarrow> length (getHistory st) \<le> 10"
proof (induction rule: reachable.induct)
  case (initial st)
  then show ?case by (simp add: getHistory_def)
next
  case (save st inp now1 now2)
  from save.IH show ?case by (rule length_getHistory_save)
next
  case (delete st i)
  have "length (filter (\<lambda>h. item_id h \<noteq> i) (getHistory st)) \<le> length (getHistory st)"
    by (rule length_filter_le)
  with delete.IH show ?case unfolding getHistory_delete by (rule order.trans[rotated])
next
  case (clear st confirmed)
  then show ?case by (simp add: getHistory_clear)
qed

lemma take_shift:
  "take 10 (as @ x # take 9 hs) = take 10 ((as @ [x]) @ hs)"
  by (cases "length as < 10") (simp_all add: take_Cons' min_def)

lemma getHistory_saveAll:
  "length (getHistory st) \<le> 10 \<Longrightarrow> list_all (\<lambda>s. accepted (fst s)) saves \<Longrightarrow>
     getHistory (saveAll saves st) = take 10 (rev (map saved_item_of saves) @ getHistory st)"
proof (induction saves arbitrary: st)
  case Nil
  then show ?case by simp
next
  case (Cons s saves)
  let ?st = "saveCalculation (fst s) (fst (snd s)) (snd (snd s)) st"
  have acc: "accepted (fst s)" and rest: "list_all (\<lambda>s. accepted (fst s)) saves"
    using Cons.prems(2) by simp_all
  have len: "length (getHistory ?st) \<le> 10"
    using Cons.prems(1) by (rule length_getHistory_save)
  have "getHistory (saveAll (s # saves) st) = getHistory (saveAll saves ?st)"
    by simp
  also have "\<dots> = take 10 (rev (map saved_item_of saves) @ getHistory ?st)"
    using len rest by (rule Cons.IH)
  also have "getHistory ?st = saved_item_of s # take 9 (getHistory st)"
    using acc by (simp add: getHistory_save saved_item_of_def)
  also have "take 10 (rev (map saved_item_of saves) @ saved_item_of s # take 9 (getHistory st)) =
      take 10 (rev (map saved_item_of (s # saves)) @ getHistory st)"
    by (simp only: take_shift list.map rev.simps)
  finally show ?case .
qed

lemma eleven_saves:
  assumes "length (getHistory st) \<le> 10" "length saves = 11"
    "list_all (\<lambda>s. accepted (fst s)) saves"
  shows "getHistory (saveAll saves st) = rev (map saved_item_of (tl saves))"
proof -
  obtain s rest where saves: "saves = s # rest" and len: "length rest = 10"
    using assms(2) by (cases saves) simp_all
  have "getHistory (saveAll saves st) = take 10 (rev (map saved_item_of saves) @ getHistory st)"
    using assms(1,3) by (rule getHistory_saveAll)
  also have "\<dots> = rev (map saved_item_of rest)"
    using len by (simp add: saves)
  finally show ?thesis by (simp add: saves)
qed


text \<open>
  Claim C3. In every state that save, delete and clear reach from a storage without
  history, the stored list has at most 10 entries. A save that passes validation puts
  the new entry in front of the first nine old entries, which stay as they are and in
  their order; a rejected save changes nothing; a delete keeps the entries with another
  id as they are and in their order; a clear removes all or nothing. No operation
  changes an entry. A sequence of accepted saves leaves the first ten of the new
  entries, latest first, followed by the old ones; in particular 11 accepted saves
  leave exactly the entries of the last 10, latest first.
\<close>

theorem history_invariant:
  assumes "reachable st"
  shows "length (getHistory st) \<le> 10
    \<and> (accepted inp \<longrightarrow>
         getHistory (saveCalculation inp now1 now2 st) =
           saved_item inp now1 now2 # take 9 (getHistory st))
    \<and> (\<not> accepted inp \<longrightarrow> saveCalculation inp now1 now2 st = st)
    \<and> getHistory (deleteHistoryItem i st) = filter (\<lambda>h. item_id h \<noteq> i) (getHistory st)
    \<and> getHistory (clearHistory confirmed st) = (if confirmed then [] else getHistory st)
    \<and> (list_all (\<lambda>s. accepted (fst s)) saves \<longrightarrow>
         getHistory (saveAll saves st) =
           take 10 (rev (map saved_item_of saves) @ getHistory st))
    \<and> (length saves = 11 \<and> list_all (\<lambda>s. accepted (fst s)) saves \<longrightarrow>
         getHistory (saveAll saves st) = rev (map saved_item_of (tl saves)))"
proof -
  have len: "length (getHistory st) \<le> 10"
    using assms by (rule reachable_length)
  show ?thesis
  proof (intro conjI impI)
    show "length (getHistory st) \<le> 10" by (rule len)
    show "getHistory (saveCalculation inp now1 now2 st) =
        saved_item inp now1 now2 # take 9 (getHistory st)" if "accepted inp"
      using that by (rule getHistory_save)
    show "saveCalculation inp now1 now2 st = st" if "\<not> accepted inp"
      using that by (rule saveCalculation_rejected)
    show "getHistory (deleteHistoryItem i st) = filter (\<lambda>h. item_id h \<noteq> i) (getHistory st)"
      by (rule getHistory_delete)
    show "getHistory (clearHistory confirmed st) = (if confirmed then [] else getHistory st)"
      by (rule getHistory_clear)
    show "getHistory (saveAll saves st) =
        take 10 (rev (map saved_item_of saves) @ getHistory st)"
      if "list_all (\<lambda>s. accepted (fst s)) saves"
      using len that by (rule getHistory_saveAll)
    show "getHistory (saveAll saves st) = rev (map saved_item_of (tl saves))"
      if "length saves = 11 \<and> list_all (\<lambda>s. accepted (fst s)) saves"
      using len that by (intro eleven_saves) simp_all
  qed
qed

lemma accepted_good_fields: "accepted good_fields"
  by (simp add: accepted_def good_fields_def or_else_def truthy_def isValid_validateInputs
      errors_validateInputs voltage_errors_def current_errors_def powerFactor_errors_def
      efficiency_errors_def outside_def num_le_def num_gt_def)

lemma rejected_bad_fields: "\<not> accepted bad_fields"
  by (simp add: accepted_def bad_fields_def or_else_def truthy_def isValid_validateInputs
      errors_validateInputs voltage_errors_def)

lemma getHistory_empty_storage: "getHistory empty_storage = []"
  by (simp add: empty_storage_def getHistory_def)

lemma reachable_empty_storage: "reachable empty_storage"
  by (rule reachable.initial) (simp add: empty_storage_def)

theorem history_invariant_witness:
  "reachable (saveCalculation good_fields 17 18 empty_storage)
   \<and> accepted good_fields
   \<and> \<not> accepted bad_fields
   \<and> length (replicate 11 (good_fields, 3::nat, 4::nat)) = 11
   \<and> list_all (\<lambda>s. accepted (fst s)) (replicate 11 (good_fields, 3::nat, 4::nat))
   \<and> getHistory (saveCalculation good_fields 17 18 empty_storage) = [saved_item good_fields 17 18]
   \<and> length (getHistory (saveCalculation good_fields 17 18 empty_storage)) \<le> 10
   \<and> getHistory (saveCalculation good_fields 42 43 (saveCalculation good_fields 17 18 empty_storage)) =
        [saved_item good_fields 42 43, saved_item good_fields 17 18]
   \<and> saveCalculation bad_fields 42 43 (saveCalculation good_fields 17 18 empty_storage) =
        saveCalculation good_fields 17 18 empty_storage
   \<and> getHistory (saveAll (replicate 11 (good_fields, 3, 4))
          (saveCalculation good_fields 17 18 empty_storage)) =
        replicate 10 (saved_item good_fields 3 4)"
proof -
  let ?st = "saveCalculation good_fields 17 18 empty_storage"
  let ?saves = "replicate 11 (good_fields, 3::nat, 4::nat)"
  have r: "reachable ?st"
    by (rule reachable.save) (rule reachable_empty_storage)
  have h: "getHistory ?st = [saved_item good_fields 17 18]"
    by (simp add: getHistory_save accepted_good_fields getHistory_empty_storage)
  have all: "list_all (\<lambda>s. accepted (fst s)) ?saves"
    by (simp add: list_all_iff accepted_good_fields)
  have tl: "rev (map saved_item_of (tl ?saves)) = replicate 10 (saved_item good_fields 3 4)"
    by (simp add: saved_item_of_def)
  from history_invariant [OF r, of good_fields 42 43 i confirmed ?saves]
    history_invariant [OF r, of bad_fields 42 43 i confirmed ?saves]
  show ?thesis
    using r h all accepted_good_fields rejected_bad_fields tl by simp
qed


lemma item_id_saved_item: "item_id (saved_item inp now1 now2) = toString now1"
  by (simp add: saved_item_def item_toJSON_def)

text \<open>
  Claim C6. For every stored list and every id, \<open>deleteHistoryItem\<close> stores the entries
  whose id differs from the given one, as they are and in their order. When no entry
  has the id, the list read back is the same list; when some have it, exactly those are
  gone. The theme key is not touched.
\<close>

theorem deleteHistoryItem_frame:
  "calculationHistory (deleteHistoryItem i st) =
      Some (filter (\<lambda>h. item_id h \<noteq> i) (getHistory st))
   \<and> getHistory (deleteHistoryItem i st) = filter (\<lambda>h. item_id h \<noteq> i) (getHistory st)
   \<and> (i \<notin> item_id ` set (getHistory st) \<longrightarrow>
        getHistory (deleteHistoryItem i st) = getHistory st)
   \<and> theme (deleteHistoryItem i st) = theme st"
proof (intro conjI impI)
  show "calculationHistory (deleteHistoryItem i st) =
      Some (filter (\<lambda>h. item_id h \<noteq> i) (getHistory st))"
    by (simp add: deleteHistoryItem_def Let_def)
  show "getHistory (deleteHistoryItem i st) = filter (\<lambda>h. item_id h \<noteq> i) (getHistory st)"
    by (rule getHistory_delete)
  show "theme (deleteHistoryItem i st) = theme st"
    by (simp add: deleteHistoryItem_def Let_def)
  assume "i \<notin> item_id ` set (getHistory st)"
  then have "filter (\<lambda>h. item_id h \<noteq> i) (getHistory st) = getHistory st"
    by (intro filter_True) auto
  then show "getHistory (deleteHistoryItem i st) = getHistory st"
    by (simp only: getHistory_delete)
qed

theorem deleteHistoryItem_frame_witness:
  "''7'' \<notin> item_id `
      set (getHistory
        (saveCalculation good_fields 42 43 (saveCalculation good_fields 17 18 empty_storage)))
   \<and> getHistory (deleteHistoryItem ''7''
        (saveCalculation good_fields 42 43 (saveCalculation good_fields 17 18 empty_storage))) =
       [saved_item good_fields 42 43, saved_item good_fields 17 18]
   \<and> getHistory (deleteHistoryItem ''17''
        (saveCalculation good_fields 42 43 (saveCalculation good_fields 17 18 empty_storage))) =
       [saved_item good_fields 42 43]"
proof -
  let ?st = "saveCalculation good_fields 42 43 (saveCalculation good_fields 17 18 empty_storage)"
  have h: "getHistory ?st = [saved_item good_fields 42 43, saved_item good_fields 17 18]"
    by (simp add: getHistory_save accepted_good_fields getHistory_empty_storage)
  have ids: "toString 42 = ''42''" "toString 17 = ''17''"
    by code_simp+
  from deleteHistoryItem_frame [of "''7''" ?st] deleteHistoryItem_frame [of "''17''" ?st]
  show ?thesis
    by (simp add: h item_id_saved_item ids)
qed

text \<open>
  Claim C7. Once a confirmed \<open>clearHistory\<close> has removed the history key, \<open>getHistory\<close>
  returns the empty list; and \<open>getHistory\<close> returns the empty list in every state in which
  the key is absent. A clear that is not confirmed leaves the storage as it is.
\<close>

theorem clearHistory_then_list:
  "calculationHistory (clearHistory True st) = None
   \<and> getHistory (clearHistory True st) = []
   \<and> (calculationHistory st = None \<longrightarrow> getHistory st = [])
   \<and> theme (clearHistory True st) = theme st
   \<and> clearHistory False st = st"
  by (simp add: clearHistory_def getHistory_def)

theorem clearHistory_then_list_witness:
  "calculationHistory empty_storage = None
   \<and> getHistory empty_storage = []
   \<and> getHistory (saveCalculation good_fields 17 18 empty_storage) = [saved_item good_fields 17 18]
   \<and> getHistory (clearHistory True (saveCalculation good_fields 17 18 empty_storage)) = []"
proof -
  have h: "getHistory (saveCalculation good_fields 17 18 empty_storage) = [saved_item good_fields 17 18]"
    by (simp add: getHistory_save accepted_good_fields getHistory_empty_storage)
  have e: "calculationHistory empty_storage = None"
    by (simp add: empty_storage_def)
  from clearHistory_then_list [of empty_storage]
    clearHistory_then_list [of "saveCalculation good_fields 17 18 empty_storage"]
  show ?thesis
    by (simp add: h e)
qed

section \<open>Defaults for the optional fields\<close>

lemma or_else_falsy: "or_else (Fin 0) d = d" "or_else NaN d = d"
  by (simp_all add: or_else_def truthy_def)

lemma fl_09: "fl (9 / 10) = Fin (8106479329266893 / 2 ^ 53)"
proof -
  have "ulp_exp (9 / 10) = - 53"
    using ulp_exp_eq[of "- 1" "9 / 10"] by (simp add: power_int_minus)
  then show ?thesis
    by (simp add: fl_def Let_def round_even_def power_int_minus field_simps)
qed

lemma default_powerFactor_valid: "powerFactor_errors (lit 0.9) = []"
  using fl_09 by (simp add: lit_def powerFactor_errors_def outside_def num_gt_def)

lemma default_efficiency_valid: "efficiency_errors (Fin 100) = []"
  by (simp add: efficiency_errors_def outside_def num_gt_def)

lemma updateCalculations_eq:
  "updateCalculations inp =
     (if accepted inp
      then Results (calculatePower (voltageInput inp) (currentInput inp) (phaseSelect inp)
             (or_else (powerFactorInput inp) (lit 0.9))
             (or_else (efficiencyInput inp) (Fin 100))
             (or_else (electricityRateInput inp) (lit 0.12)))
      else Errors (errors (validateInputs (voltageInput inp) (currentInput inp)
             (or_else (powerFactorInput inp) (lit 0.9))
             (or_else (efficiencyInput inp) (Fin 100))
             (or_else (electricityRateInput inp) (lit 0.12)))))"
  unfolding updateCalculations_def accepted_def Let_def by simp

lemma saveCalculation_eq:
  "saveCalculation inp now1 now2 st =
     (if accepted inp
      then st\<lparr>calculationHistory := Some (take 10 (saved_item inp now1 now2 # getHistory st))\<rparr>
      else st)"
  by (simp add: saveCalculation_accepted saveCalculation_rejected)

lemma or_else_with_default: "or_else x d = with_default x d"
  by (cases x) (simp_all add: or_else_def truthy_def with_default_def)

lemma or_else_same: "or_else d d = d"
  by (simp add: or_else_def)

lemma updateCalculations_with_default:
  "updateCalculations inp =
     (let f = with_default (powerFactorInput inp) (lit 0.9);
          e = with_default (efficiencyInput inp) (Fin 100);
          r = with_default (electricityRateInput inp) (lit 0.12);
          es = voltage_errors (voltageInput inp) @ current_errors (currentInput inp)
                 @ powerFactor_errors f @ efficiency_errors e
      in if es = []
         then Results (calculatePower (voltageInput inp) (currentInput inp) (phaseSelect inp) f e r)
         else Errors es)"
  unfolding updateCalculations_eq accepted_def isValid_validateInputs errors_validateInputs
    or_else_with_default Let_def
  by (rule refl)

lemma take_10_Cons: "take 10 (x # xs) = x # take 9 xs"
  by simp

lemma saveCalculation_with_default:
  "saveCalculation inp now1 now2 st =
     (let f = with_default (powerFactorInput inp) (lit 0.9);
          e = with_default (efficiencyInput inp) (Fin 100);
          r = with_default (electricityRateInput inp) (lit 0.12);
          es = voltage_errors (voltageInput inp) @ current_errors (currentInput inp)
                 @ powerFactor_errors f @ efficiency_errors e
      in if es = []
         then st\<lparr>calculationHistory := Some
                (item_toJSON
                   \<lparr>item_id = toString now1, timestamp = now2, voltage = voltageInput inp,
                    current = currentInput inp, item_phase = phaseSelect inp,
                    powerFactor = f, efficiency = e, rate = r,
                    result = calculatePower (voltageInput inp) (currentInput inp)
                               (phaseSelect inp) f e r\<rparr>
                 # take 9 (getHistory st))\<rparr>
         else st)"
  unfolding saveCalculation_eq accepted_def saved_item_def isValid_validateInputs
    errors_validateInputs or_else_with_default Let_def take_10_Cons
  by (rule refl)


lemma default_rate_costPerHour:
  "costPerHour (calculatePower (Fin 120) (Fin 10) (Fin 1) (Fin 1) (Fin 100) (lit 0.12)) =
     lit 0.144"
proof -
  define R where "R = calculatePower (Fin 120) (Fin 10) (Fin 1) (Fin 1) (Fin 100) (lit 0.12)"
  have kva: "kva R = Fin (5404319552844595 / 2 ^ 52)"
    unfolding R_def calculatePower_fields using fl_1200 fl_12 by simp
  have kw: "kw R = Fin (5404319552844595 / 2 ^ 52)"
    unfolding R_def calculatePower_fields(2) unfolding R_def[symmetric] kva
    using fl_12d by simp
  have adj: "adjustedPower R = Fin (5404319552844595 / 2 ^ 52)"
    unfolding R_def calculatePower_fields(4) unfolding R_def[symmetric] kw
    using fl_12d by (simp add: fl_1)
  have cost: "costPerHour R = Fin (5188146770730811 / 2 ^ 55)"
    unfolding R_def calculatePower_fields(5) unfolding R_def[symmetric] adj
    using fl_prod fl_012 by (simp add: lit_def)
  have "lit 0.144 = Fin (5188146770730811 / 2 ^ 55)"
    using fl_0144 by (simp add: lit_def)
  with cost show ?thesis
    unfolding R_def by simp
qed

lemma lit_0144: "lit 0.144 = Fin (5188146770730811 / 2 ^ 55)"
  using fl_0144 by (simp add: lit_def)

lemma good_fields_zero_rate_errors:
  "voltage_errors (Fin 120) @ current_errors (Fin 10) @ powerFactor_errors (Fin 1)
     @ efficiency_errors (Fin 100) = []"
  by (simp add: voltage_errors_def current_errors_def powerFactor_errors_def
      efficiency_errors_def outside_def num_le_def num_gt_def)

lemma updateCalculations_zero_rate_example:
  "updateCalculations (good_fields\<lparr>electricityRateInput := Fin 0\<rparr>) =
     Results (calculatePower (Fin 120) (Fin 10) (Fin 1) (Fin 1) (Fin 100) (lit 0.12))"
  unfolding updateCalculations_with_default Let_def
  by (simp add: good_fields_def with_default_def good_fields_zero_rate_errors)

lemma saveCalculation_zero_rate_example:
  "getHistory (saveCalculation (good_fields\<lparr>electricityRateInput := Fin 0\<rparr>) 17 18 empty_storage) =
     [item_toJSON
        \<lparr>item_id = toString 17, timestamp = 18, voltage = Fin 120, current = Fin 10,
         item_phase = Fin 1, powerFactor = Fin 1, efficiency = Fin 100, rate = lit 0.12,
         result = calculatePower (Fin 120) (Fin 10) (Fin 1) (Fin 1) (Fin 100) (lit 0.12)\<rparr>]"
  unfolding saveCalculation_with_default Let_def
  by (simp add: good_fields_def with_default_def good_fields_zero_rate_errors
      getHistory_empty_storage)

text \<open>
  Claim C5. An optional field that parses to 0 gets the default exactly as an absent
  field (one that parses to not-a-number) does: rate 0 becomes 0.12, efficiency 0
  becomes 100, power factor 0 becomes 0.9, before validation and calculation. For every
  input, \<open>updateCalculations\<close> validates and calculates with each optional field taken
  at its default when it parses to not-a-number or to 0 and at its parsed value
  otherwise, and \<open>saveCalculation\<close> stores the entry made of these values and of the result
  calculated from them. What is displayed and what is stored is therefore the same for
  a zero field, an absent field and a field that holds the default itself, all costs
  included: at 120 V, 10 A, single phase, power factor 1, efficiency 100 and rate 0 the
  cost per hour is 0.144, the one for rate 0.12, and the stored rate is 0.12. With
  the three optional fields absent, the calculation runs with 0.9, 100 and 0.12, and the
  only errors that can be reported are those of voltage and current.
\<close>

theorem zero_field_takes_default:
  "or_else (Fin 0) (lit 0.12) = lit 0.12 \<and> or_else NaN (lit 0.12) = lit 0.12
   \<and> or_else (Fin 0) (Fin 100) = Fin 100 \<and> or_else NaN (Fin 100) = Fin 100
   \<and> or_else (Fin 0) (lit 0.9) = lit 0.9 \<and> or_else NaN (lit 0.9) = lit 0.9
   \<and> updateCalculations (inp\<lparr>electricityRateInput := Fin 0\<rparr>) =
       updateCalculations (inp\<lparr>electricityRateInput := NaN\<rparr>)
   \<and> updateCalculations (inp\<lparr>efficiencyInput := Fin 0\<rparr>) =
       updateCalculations (inp\<lparr>efficiencyInput := NaN\<rparr>)
   \<and> updateCalculations (inp\<lparr>powerFactorInput := Fin 0\<rparr>) =
       updateCalculations (inp\<lparr>powerFactorInput := NaN\<rparr>)
   \<and> saveCalculation (inp\<lparr>electricityRateInput := Fin 0\<rparr>) now1 now2 st =
       saveCalculation (inp\<lparr>electricityRateInput := NaN\<rparr>) now1 now2 st
   \<and> saveCalculation (inp\<lparr>efficiencyInput := Fin 0\<rparr>) now1 now2 st =
       saveCalculation (inp\<lparr>efficiencyInput := NaN\<rparr>) now1 now2 st
   \<and> saveCalculation (inp\<lparr>powerFactorInput := Fin 0\<rparr>) now1 now2 st =
       saveCalculation (inp\<lparr>powerFactorInput := NaN\<rparr>) now1 now2 st
   \<and> updateCalculations
        (inp\<lparr>powerFactorInput := NaN, efficiencyInput := NaN, electricityRateInput := NaN\<rparr>) =
       (if voltage_errors (voltageInput inp) @ current_errors (currentInput inp) = []
        then Results (calculatePower (voltageInput inp) (currentInput inp) (phaseSelect inp)
               (lit 0.9) (Fin 100) (lit 0.12))
        else Errors (voltage_errors (voltageInput inp) @ current_errors (currentInput inp)))
   \<and> updateCalculations inp =
       (let f = with_default (powerFactorInput inp) (lit 0.9);
            e = with_default (efficiencyInput inp) (Fin 100);
            r = with_default (electricityRateInput inp) (lit 0.12);
            es = voltage_errors (voltageInput inp) @ current_errors (currentInput inp)
                   @ powerFactor_errors f @ efficiency_errors e
        in if es = []
           then Results
                  (calculatePower (voltageInput inp) (currentInput inp) (phaseSelect inp) f e r)
           else Errors es)
   \<and> saveCalculation inp now1 now2 st =
       (let f = with_default (powerFactorInput inp) (lit 0.9);
            e = with_default (efficiencyInput inp) (Fin 100);
            r = with_default (electricityRateInput inp) (lit 0.12);
            es = voltage_errors (voltageInput inp) @ current_errors (currentInput inp)
                   @ powerFactor_errors f @ efficiency_errors e
        in if es = []
           then st\<lparr>calculationHistory := Some
                  (item_toJSON
                     \<lparr>item_id = toString now1, timestamp = now2, voltage = voltageInput inp,
                      current = currentInput inp, item_phase = phaseSelect inp,
                      powerFactor = f, efficiency = e, rate = r,
                      result = calculatePower (voltageInput inp) (currentInput inp)
                                 (phaseSelect inp) f e r\<rparr>
                   # take 9 (getHistory st))\<rparr>
           else st)
   \<and> updateCalculations (inp\<lparr>electricityRateInput := Fin 0\<rparr>) =
       updateCalculations (inp\<lparr>electricityRateInput := lit 0.12\<rparr>)
   \<and> updateCalculations (inp\<lparr>efficiencyInput := Fin 0\<rparr>) =
       updateCalculations (inp\<lparr>efficiencyInput := Fin 100\<rparr>)
   \<and> updateCalculations (inp\<lparr>powerFactorInput := Fin 0\<rparr>) =
       updateCalculations (inp\<lparr>powerFactorInput := lit 0.9\<rparr>)
   \<and> saveCalculation (inp\<lparr>electricityRateInput := Fin 0\<rparr>) now1 now2 st =
       saveCalculation (inp\<lparr>electricityRateInput := lit 0.12\<rparr>) now1 now2 st
   \<and> saveCalculation (inp\<lparr>efficiencyInput := Fin 0\<rparr>) now1 now2 st =
       saveCalculation (inp\<lparr>efficiencyInput := Fin 100\<rparr>) now1 now2 st
   \<and> saveCalculation (inp\<lparr>powerFactorInput := Fin 0\<rparr>) now1 now2 st =
       saveCalculation (inp\<lparr>powerFactorInput := lit 0.9\<rparr>) now1 now2 st
   \<and> updateCalculations (good_fields\<lparr>electricityRateInput := Fin 0\<rparr>) =
       Results (calculatePower (Fin 120) (Fin 10) (Fin 1) (Fin 1) (Fin 100) (lit 0.12))
   \<and> costPerHour (calculatePower (Fin 120) (Fin 10) (Fin 1) (Fin 1) (Fin 100) (lit 0.12)) =
       lit 0.144
   \<and> lit 0.144 = Fin (5188146770730811 / 2 ^ 55)
   \<and> getHistory (saveCalculation (good_fields\<lparr>electricityRateInput := Fin 0\<rparr>) 17 18
         empty_storage) =
       [item_toJSON
          \<lparr>item_id = toString 17, timestamp = 18, voltage = Fin 120, current = Fin 10,
           item_phase = Fin 1, powerFactor = Fin 1, efficiency = Fin 100, rate = lit 0.12,
           result = calculatePower (Fin 120) (Fin 10) (Fin 1) (Fin 1) (Fin 100) (lit 0.12)\<rparr>]"
proof -
  have acc: "accepted (inp\<lparr>electricityRateInput := Fin 0\<rparr>) = accepted (inp\<lparr>electricityRateInput := NaN\<rparr>)"
    "accepted (inp\<lparr>efficiencyInput := Fin 0\<rparr>) = accepted (inp\<lparr>efficiencyInput := NaN\<rparr>)"
    "accepted (inp\<lparr>powerFactorInput := Fin 0\<rparr>) = accepted (inp\<lparr>powerFactorInput := NaN\<rparr>)"
    by (simp_all add: accepted_def or_else_falsy)
  have item: "saved_item (inp\<lparr>electricityRateInput := Fin 0\<rparr>) now1 now2 = saved_item (inp\<lparr>electricityRateInput := NaN\<rparr>) now1 now2"
    "saved_item (inp\<lparr>efficiencyInput := Fin 0\<rparr>) now1 now2 = saved_item (inp\<lparr>efficiencyInput := NaN\<rparr>) now1 now2"
    "saved_item (inp\<lparr>powerFactorInput := Fin 0\<rparr>) now1 now2 = saved_item (inp\<lparr>powerFactorInput := NaN\<rparr>) now1 now2"
    by (simp_all add: saved_item_def or_else_falsy)
  have absent: "updateCalculations
        (inp\<lparr>powerFactorInput := NaN, efficiencyInput := NaN, electricityRateInput := NaN\<rparr>) =
       (if voltage_errors (voltageInput inp) @ current_errors (currentInput inp) = []
        then Results (calculatePower (voltageInput inp) (currentInput inp) (phaseSelect inp)
               (lit 0.9) (Fin 100) (lit 0.12))
        else Errors (voltage_errors (voltageInput inp) @ current_errors (currentInput inp)))"
    unfolding updateCalculations_eq accepted_def isValid_validateInputs errors_validateInputs
    by (simp add: or_else_falsy default_powerFactor_valid default_efficiency_valid)
  have old: "or_else (Fin 0) (lit 0.12) = lit 0.12 \<and> or_else NaN (lit 0.12) = lit 0.12
   \<and> or_else (Fin 0) (Fin 100) = Fin 100 \<and> or_else NaN (Fin 100) = Fin 100
   \<and> or_else (Fin 0) (lit 0.9) = lit 0.9 \<and> or_else NaN (lit 0.9) = lit 0.9
   \<and> updateCalculations (inp\<lparr>electricityRateInput := Fin 0\<rparr>) =
       updateCalculations (inp\<lparr>electricityRateInput := NaN\<rparr>)
   \<and> updateCalculations (inp\<lparr>efficiencyInput := Fin 0\<rparr>) =
       updateCalculations (inp\<lparr>efficiencyInput := NaN\<rparr>)
   \<and> updateCalculations (inp\<lparr>powerFactorInput := Fin 0\<rparr>) =
       updateCalculations (inp\<lparr>powerFactorInput := NaN\<rparr>)
   \<and> saveCalculation (inp\<lparr>electricityRateInput := Fin 0\<rparr>) now1 now2 st =
       saveCalculation (inp\<lparr>electricityRateInput := NaN\<rparr>) now1 now2 st
   \<and> saveCalculation (inp\<lparr>efficiencyInput := Fin 0\<rparr>) now1 now2 st =
       saveCalculation (inp\<lparr>efficiencyInput := NaN\<rparr>) now1 now2 st
   \<and> saveCalculation (inp\<lparr>powerFactorInput := Fin 0\<rparr>) now1 now2 st =
       saveCalculation (inp\<lparr>powerFactorInput := NaN\<rparr>) now1 now2 st"
    unfolding saveCalculation_eq acc item
    by (intro conjI or_else_falsy refl) (simp_all add: updateCalculations_def or_else_falsy)
  have upd: "updateCalculations (inp\<lparr>electricityRateInput := Fin 0\<rparr>) =
       updateCalculations (inp\<lparr>electricityRateInput := lit 0.12\<rparr>)"
    "updateCalculations (inp\<lparr>efficiencyInput := Fin 0\<rparr>) =
       updateCalculations (inp\<lparr>efficiencyInput := Fin 100\<rparr>)"
    "updateCalculations (inp\<lparr>powerFactorInput := Fin 0\<rparr>) =
       updateCalculations (inp\<lparr>powerFactorInput := lit 0.9\<rparr>)"
    by (simp_all add: updateCalculations_def or_else_falsy or_else_same)
  have acc': "accepted (inp\<lparr>electricityRateInput := Fin 0\<rparr>) = accepted (inp\<lparr>electricityRateInput := lit 0.12\<rparr>)"
    "accepted (inp\<lparr>efficiencyInput := Fin 0\<rparr>) = accepted (inp\<lparr>efficiencyInput := Fin 100\<rparr>)"
    "accepted (inp\<lparr>powerFactorInput := Fin 0\<rparr>) = accepted (inp\<lparr>powerFactorInput := lit 0.9\<rparr>)"
    by (simp_all add: accepted_def or_else_falsy or_else_same)
  have item': "saved_item (inp\<lparr>electricityRateInput := Fin 0\<rparr>) now1 now2 = saved_item (inp\<lparr>electricityRateInput := lit 0.12\<rparr>) now1 now2"
    "saved_item (inp\<lparr>efficiencyInput := Fin 0\<rparr>) now1 now2 = saved_item (inp\<lparr>efficiencyInput := Fin 100\<rparr>) now1 now2"
    "saved_item (inp\<lparr>powerFactorInput := Fin 0\<rparr>) now1 now2 = saved_item (inp\<lparr>powerFactorInput := lit 0.9\<rparr>) now1 now2"
    by (simp_all add: saved_item_def or_else_falsy or_else_same)
  have sav: "saveCalculation (inp\<lparr>electricityRateInput := Fin 0\<rparr>) now1 now2 st =
       saveCalculation (inp\<lparr>electricityRateInput := lit 0.12\<rparr>) now1 now2 st"
    "saveCalculation (inp\<lparr>efficiencyInput := Fin 0\<rparr>) now1 now2 st =
       saveCalculation (inp\<lparr>efficiencyInput := Fin 100\<rparr>) now1 now2 st"
    "saveCalculation (inp\<lparr>powerFactorInput := Fin 0\<rparr>) now1 now2 st =
       saveCalculation (inp\<lparr>powerFactorInput := lit 0.9\<rparr>) now1 now2 st"
    unfolding saveCalculation_eq acc' item' by (rule refl)+
  show ?thesis
    by (intro conjI old[THEN conjunct1] absent updateCalculations_with_default
        saveCalculation_with_default upd sav updateCalculations_zero_rate_example
        default_rate_costPerHour lit_0144 saveCalculation_zero_rate_example)
      (use old in blast)+
qed

end
